theory Spec2Isabelle
  imports Complex_Main
begin

section \<open>Values of the runtime\<close>

text \<open>
  A value caught by a \<^verbatim>\<open>catch\<close> clause. The code inspects three things of it: whether it
  is an instance of \<^verbatim>\<open>Error\<close>, its \<^verbatim>\<open>message\<close> and its \<^verbatim>\<open>code\<close> property.
\<close>

datatype err_code = NoCode | NumCode int | StrCode string

datatype thrown = Thrown (instanceofError: bool) (err_message: string) (err_code: err_code)

text \<open>\<^verbatim>\<open>new Error(msg)\<close>\<close>

definition Error :: "string \<Rightarrow> thrown" where
  "Error msg = Thrown True msg NoCode"

text \<open>\<^verbatim>\<open>error instanceof Error ? error.message : "Unknown error"\<close>\<close>

definition errorMessage :: "thrown \<Rightarrow> string" where
  "errorMessage error = (if instanceofError error then err_message error else ''Unknown error'')"

subsection \<open>Strings\<close>

text \<open>
  Problem indices, rank labels and handles are ASCII. \<^verbatim>\<open>toUpperCase\<close> and
  \<^verbatim>\<open>toLowerCase\<close> are modelled on the ASCII letters; every other character is kept.
\<close>

definition char_toUpperCase :: "char \<Rightarrow> char" where
  "char_toUpperCase c =
     (if 97 \<le> (of_char c :: nat) \<and> (of_char c :: nat) \<le> 122
      then char_of ((of_char c :: nat) - 32) else c)"

definition char_toLowerCase :: "char \<Rightarrow> char" where
  "char_toLowerCase c =
     (if 65 \<le> (of_char c :: nat) \<and> (of_char c :: nat) \<le> 90
      then char_of ((of_char c :: nat) + 32) else c)"

definition toUpperCase :: "string \<Rightarrow> string" where
  "toUpperCase s = map char_toUpperCase s"

definition toLowerCase :: "string \<Rightarrow> string" where
  "toLowerCase s = map char_toLowerCase s"

text \<open>\<^verbatim>\<open>s.includes(t)\<close>: \<open>t\<close> occurs in \<open>s\<close> as a contiguous substring.\<close>

fun startsWith :: "string \<Rightarrow> string \<Rightarrow> bool" where
  "startsWith s [] = True"
| "startsWith [] (c # t) = False"
| "startsWith (d # s) (c # t) = (d = c \<and> startsWith s t)"

fun str_includes :: "string \<Rightarrow> string \<Rightarrow> bool" where
  "str_includes [] t = (t = [])"
| "str_includes (d # s) t = (startsWith (d # s) t \<or> str_includes s t)"

text \<open>The decimal text of an integer, as a template literal prints a whole number.\<close>

definition digit_char :: "nat \<Rightarrow> char" where
  "digit_char d = char_of (48 + d)"

fun string_of_nat :: "nat \<Rightarrow> string" where
  "string_of_nat n =
     (if n < 10 then [digit_char n] else string_of_nat (n div 10) @ [digit_char (n mod 10)])"

definition string_of_int :: "int \<Rightarrow> string" where
  "string_of_int i = (if i < 0 then CHR ''-'' # string_of_nat (nat (- i)) else string_of_nat (nat i))"

section \<open>Time (utils/time.ts)\<close>

text \<open>
  A \<^verbatim>\<open>Date\<close>, and an ISO timestamp string read back by \<^verbatim>\<open>new Date(s)\<close>, is its time value:
  milliseconds since the epoch. The clock reading \<^verbatim>\<open>new Date()\<close> of each function is its
  first argument \<open>now\<close>.
\<close>

definition getExpirationTime :: "int \<Rightarrow> int \<Rightarrow> int" where
  "getExpirationTime now minutes = now + minutes * 60000"

definition isExpired :: "int \<Rightarrow> int \<Rightarrow> bool" where
  "isExpired now expiresAt = (let expiration = expiresAt in now > expiration)"

definition getRemainingTime :: "int \<Rightarrow> int \<Rightarrow> string" where
  "getRemainingTime now expiresAt =
     (let expiration = expiresAt; diff = expiration - now in
      if diff \<le> 0 then ''Expired''
      else
        let minutes = diff div 60000;
            seconds = (diff mod 60000) div 1000
        in string_of_int minutes @ ''m '' @ string_of_int seconds @ ''s'')"

definition isSubmissionAfterStart :: "int \<Rightarrow> int \<Rightarrow> bool" where
  "isSubmissionAfterStart submissionTime startedAt =
     (let startTimestamp = startedAt div 1000 in submissionTime \<ge> startTimestamp)"

section \<open>Codeforces service (services/codeforces.service.ts)\<close>

record codeforces_problem =
  cp_contestId :: int
  cp_index :: string
  cp_name :: string

record codeforces_submission =
  cs_id :: int
  cs_problem :: codeforces_problem
  cs_verdict :: "string option"
  cs_creationTimeSeconds :: int
  cs_programmingLanguage :: string

record submission =
  sub_id :: int
  contestId :: int
  problemIndex :: string
  problemName :: string
  verdict :: "string option"
  creationTimeSeconds :: int
  programmingLanguage :: string

record verification_result =
  verified :: bool
  submission :: "submission option"
  message :: string

text \<open>
  The upstream API is a parameter: \<open>user_status handle from count\<close> is what
  \<^verbatim>\<open>makeRequest("/user.status", {handle, from, count})\<close> resolves to or rejects with.
\<close>

type_synonym user_status_api = "string \<Rightarrow> nat \<Rightarrow> nat \<Rightarrow> thrown + codeforces_submission list"

definition to_submission :: "codeforces_submission \<Rightarrow> submission" where
  "to_submission sub =
     \<lparr> sub_id = cs_id sub,
       contestId = cp_contestId (cs_problem sub),
       problemIndex = cp_index (cs_problem sub),
       problemName = cp_name (cs_problem sub),
       verdict = cs_verdict sub,
       creationTimeSeconds = cs_creationTimeSeconds sub,
       programmingLanguage = cs_programmingLanguage sub \<rparr>"

definition getRecentSubmissions :: "user_status_api \<Rightarrow> string \<Rightarrow> nat \<Rightarrow> thrown + submission list" where
  "getRecentSubmissions user_status username count =
     (case user_status username 1 count of
        Inl error \<Rightarrow> Inl error
      | Inr submissions \<Rightarrow> Inr (map to_submission submissions))"

text \<open>An absent verdict prints as \<^verbatim>\<open>undefined\<close> in a template literal.\<close>

definition verdict_text :: "string option \<Rightarrow> string" where
  "verdict_text v = (case v of None \<Rightarrow> ''undefined'' | Some s \<Rightarrow> s)"

text \<open>The two callbacks given to \<^verbatim>\<open>find\<close>, the first with its three named conditions.\<close>

definition isCompilationErrorMatch :: "int \<Rightarrow> string \<Rightarrow> int \<Rightarrow> submission \<Rightarrow> bool" where
  "isCompilationErrorMatch cid pidx startedAt sub =
     (let isProblemMatch =
            (contestId sub = cid \<and> toUpperCase (problemIndex sub) = toUpperCase pidx);
          isCompilationError = (verdict sub = Some ''COMPILATION_ERROR'');
          isAfterStart = isSubmissionAfterStart (creationTimeSeconds sub) startedAt
      in isProblemMatch \<and> isCompilationError \<and> isAfterStart)"

definition isProblemSubmission :: "int \<Rightarrow> string \<Rightarrow> int \<Rightarrow> submission \<Rightarrow> bool" where
  "isProblemSubmission cid pidx startedAt sub =
     (contestId sub = cid \<and> toUpperCase (problemIndex sub) = toUpperCase pidx \<and>
      isSubmissionAfterStart (creationTimeSeconds sub) startedAt)"

definition checkCompilationErrorSubmission ::
  "user_status_api \<Rightarrow> string \<Rightarrow> int \<Rightarrow> string \<Rightarrow> int \<Rightarrow> thrown + verification_result" where
  \<open>checkCompilationErrorSubmission user_status username cid pidx startedAt =
     (case getRecentSubmissions user_status username 20 of
        Inl error \<Rightarrow> Inl error
      | Inr submissions \<Rightarrow>
          (case find (isCompilationErrorMatch cid pidx startedAt) submissions of
             Some matchingSubmission \<Rightarrow>
               Inr \<lparr> verified = True, submission = Some matchingSubmission,
                     message = ''Compilation Error submission found!'' \<rparr>
           | None \<Rightarrow>
               (case find (isProblemSubmission cid pidx startedAt) submissions of
                  Some anyProblemSubmission \<Rightarrow>
                    Inr \<lparr> verified = False, submission = Some anyProblemSubmission,
                          message = ''Found submission but verdict was "'' @
                                    verdict_text (verdict anyProblemSubmission) @
                                    ''" instead of "COMPILATION_ERROR"'' \<rparr>
                | None \<Rightarrow>
                    Inr \<lparr> verified = False, submission = None,
                          message = ''No submission found to the specified problem'' \<rparr>)))\<close>

record codeforces_user =
  cu_handle :: string
  cu_rank :: "string option"
  cu_rating :: "int option"
  cu_maxRank :: "string option"
  cu_maxRating :: "int option"
  cu_avatar :: "string option"
  cu_titlePhoto :: "string option"

record user_info_rec =
  ui_handle :: string
  ui_rank :: string
  ui_rating :: int
  ui_maxRank :: string
  ui_maxRating :: int
  ui_avatar :: "string option"
  ui_titlePhoto :: "string option"

text \<open>\<open>user_info handles\<close> is what \<^verbatim>\<open>makeRequest("/user.info", {handles})\<close> resolves to or rejects with.\<close>

type_synonym user_info_api = "string \<Rightarrow> thrown + codeforces_user list"

definition getUserInfo_try :: "user_info_api \<Rightarrow> string \<Rightarrow> thrown + user_info_rec" where
  \<open>getUserInfo_try user_info username =
     (case user_info username of
        Inl error \<Rightarrow> Inl error
      | Inr users \<Rightarrow>
          (case users of
             [] \<Rightarrow> Inl (Error (''User "'' @ username @ ''" not found''))
           | user # _ \<Rightarrow>
               Inr \<lparr> ui_handle = cu_handle user,
                     ui_rank = (case cu_rank user of None \<Rightarrow> ''unrated'' | Some r \<Rightarrow> r),
                     ui_rating = (case cu_rating user of None \<Rightarrow> 0 | Some r \<Rightarrow> r),
                     ui_maxRank = (case cu_maxRank user of None \<Rightarrow> ''unrated'' | Some r \<Rightarrow> r),
                     ui_maxRating = (case cu_maxRating user of None \<Rightarrow> 0 | Some r \<Rightarrow> r),
                     ui_avatar = cu_avatar user,
                     ui_titlePhoto = cu_titlePhoto user \<rparr>))\<close>

definition getUserInfo :: "user_info_api \<Rightarrow> string \<Rightarrow> thrown + user_info_rec" where
  \<open>getUserInfo user_info username =
     (case getUserInfo_try user_info username of
        Inr info \<Rightarrow> Inr info
      | Inl error \<Rightarrow>
          if instanceofError error \<and> str_includes (err_message error) ''not found''
          then Inl (Error (''Codeforces user "'' @ username @ ''" not found''))
          else Inl error)\<close>

definition getUserRank :: "user_info_api \<Rightarrow> string \<Rightarrow> thrown + string" where
  "getUserRank user_info username =
     (case getUserInfo user_info username of
        Inl error \<Rightarrow> Inl error
      | Inr userInfo \<Rightarrow> Inr (ui_rank userInfo))"

section \<open>Challenge issuer (utils/randomProblem.ts)\<close>

record pool_problem =
  pp_contestId :: int
  pp_index :: string
  pp_name :: string
  pp_rating :: "int option"

record random_problem =
  rp_id :: string
  rp_contestId :: int
  rp_index :: string
  rp_name :: string
  rp_rating :: int
  rp_url :: string

text \<open>The body of the problem-set response: its status and, when present, the problems of its result.\<close>

record problemset_response =
  ps_status :: string
  ps_result :: "pool_problem list option"

text \<open>The two module variables of the cache.\<close>

record problem_cache =
  cfProblemsCache :: "pool_problem list option"
  cfCacheTimestamp :: "int option"

definition CF_MIN_RATING :: int where "CF_MIN_RATING = 1500"
definition CF_MAX_RATING :: int where "CF_MAX_RATING = 2500"
definition CF_CACHE_DURATION :: int where "CF_CACHE_DURATION = 3600000"

definition in_rating_band :: "pool_problem \<Rightarrow> bool" where
  "in_rating_band problem =
     (case pp_rating problem of
        None \<Rightarrow> False
      | Some rating \<Rightarrow> rating \<ge> CF_MIN_RATING \<and> rating \<le> CF_MAX_RATING)"

text \<open>
  The \<^verbatim>\<open>try\<close> block of \<^verbatim>\<open>fetchCodeforcesProblems\<close>; \<open>http\<close> is what the request to
  \<^verbatim>\<open>problemset.problems\<close> resolves to or rejects with, \<open>now\<close> the clock when the cache is
  stamped. A status other than \<^verbatim>\<open>OK\<close> and an absent result throw the same error.
\<close>

definition fetchCodeforcesProblems_try ::
  "int \<Rightarrow> thrown + problemset_response \<Rightarrow> problem_cache \<Rightarrow> (thrown + pool_problem list) \<times> problem_cache" where
  "fetchCodeforcesProblems_try now http cache =
     (case http of
        Inl error \<Rightarrow> (Inl error, cache)
      | Inr response \<Rightarrow>
          (case ps_result response of
             None \<Rightarrow> (Inl (Error ''Codeforces API returned non-OK status''), cache)
           | Some all_problems \<Rightarrow>
               if ps_status response \<noteq> ''OK''
               then (Inl (Error ''Codeforces API returned non-OK status''), cache)
               else
                 let problems = filter in_rating_band all_problems
                 in (Inr problems,
                     \<lparr> cfProblemsCache = Some problems, cfCacheTimestamp = Some now \<rparr>)))"

text \<open>
  The test that opens \<^verbatim>\<open>fetchCodeforcesProblems\<close>, with the cached problems when it
  passes; \<open>now0\<close> is the clock it reads. A timestamp of 0 and an absent one are both falsy;
  an empty array is truthy, so an empty snapshot counts as a snapshot.
\<close>

definition fresh_cache :: "int \<Rightarrow> problem_cache \<Rightarrow> pool_problem list option" where
  "fresh_cache now0 cache =
     (case cfProblemsCache cache of
        None \<Rightarrow> None
      | Some cached \<Rightarrow>
          (case cfCacheTimestamp cache of
             None \<Rightarrow> None
           | Some ts \<Rightarrow>
               if ts \<noteq> 0 \<and> now0 - ts < CF_CACHE_DURATION then Some cached else None))"

text \<open>The \<^verbatim>\<open>catch\<close> clause serves the snapshot the cache holds, if any, and throws the error on otherwise.\<close>

definition fetchCodeforcesProblems ::
  "int \<Rightarrow> int \<Rightarrow> thrown + problemset_response \<Rightarrow> problem_cache \<Rightarrow> (thrown + pool_problem list) \<times> problem_cache" where
  "fetchCodeforcesProblems now0 now http cache =
     (case fresh_cache now0 cache of
        Some cached \<Rightarrow> (Inr cached, cache)
      | None \<Rightarrow>
          (case fetchCodeforcesProblems_try now http cache of
             (Inr problems, cache') \<Rightarrow> (Inr problems, cache')
           | (Inl error, cache') \<Rightarrow>
               (case cfProblemsCache cache' of
                  Some stale \<Rightarrow> (Inr stale, cache')
                | None \<Rightarrow> (Inl error, cache'))))"

text \<open>\<open>random\<close> is the value drawn by \<^verbatim>\<open>Math.random()\<close>.\<close>

definition getRandomCodeforcesProblem ::
  "int \<Rightarrow> int \<Rightarrow> thrown + problemset_response \<Rightarrow> real \<Rightarrow> problem_cache \<Rightarrow> (thrown + random_problem) \<times> problem_cache" where
  "getRandomCodeforcesProblem now0 now http random cache =
     (case fetchCodeforcesProblems now0 now http cache of
        (Inl error, cache') \<Rightarrow> (Inl error, cache')
      | (Inr problems, cache') \<Rightarrow>
          if length problems = 0 then (Inl (Error ''No Codeforces problems available''), cache')
          else
            let randomIndex = \<lfloor>random * real (length problems)\<rfloor> in
            if 0 \<le> randomIndex \<and> randomIndex < int (length problems) then
              let problem = problems ! nat randomIndex;
                  problemUrl = ''https://codeforces.com/problemset/problem/'' @
                               string_of_int (pp_contestId problem) @ ''/'' @ pp_index problem
              in (Inr \<lparr> rp_id = string_of_int (pp_contestId problem) @ pp_index problem,
                        rp_contestId = pp_contestId problem,
                        rp_index = pp_index problem,
                        rp_name = pp_name problem,
                        rp_rating = (case pp_rating problem of None \<Rightarrow> 0 | Some r \<Rightarrow> r),
                        rp_url = problemUrl \<rparr>, cache')
            else (Inl (Error ''Failed to select a random problem''), cache'))"

section \<open>The store (services/supabase.ts)\<close>

text \<open>
  The rows of the three tables. The rank-role map of a guild configuration is the JSON
  object as the list of its entries, keys distinct; timestamps are time values.
\<close>

record guild_config =
  gc_guild_id :: string
  gc_verified_role_id :: "string option"
  gc_rank_role_map :: "(string \<times> string) list option"

record pending_verification =
  pv_id :: string
  pv_discord_user_id :: string
  pv_guild_id :: string
  pv_username :: string
  pv_problem_id :: string
  pv_problem_url :: string
  pv_problem_name :: "string option"
  pv_expires_at :: int
  pv_started_at :: "int option"

record linked_account =
  la_id :: string
  la_discord_user_id :: string
  la_guild_id :: string
  la_username :: string
  la_verified :: bool
  la_verified_at :: "int option"
  la_rank :: "string option"

text \<open>The requests the code sends to the store.\<close>

datatype store_request =
    SelectGuildConfig string
  | DeletePendingByKey string string string
  | InsertPending pending_verification
  | SelectPending string string
  | DeletePendingById string
  | UpsertLinkedAccount string string string
  | SelectAllLinked
  | UpdateLinkedRank string string

text \<open>The role mutations requested of the chat platform, with their audit reason.\<close>

datatype role_call = RolesAdd string string | RolesRemove "string list" string

text \<open>
  A guild member as the code reads it: the roles it holds (\<^verbatim>\<open>member.roles.cache\<close>), the
  roles of its guild (\<^verbatim>\<open>member.guild.roles.cache\<close>), and the role requests made on it so far.
\<close>

record guild_member =
  gm_id :: string
  gm_roles :: "string list"
  gm_guild_roles :: "string list"
  gm_calls :: "role_call list"

text \<open>The tables and the guild members the code reads and writes, members by guild id and user id.\<close>

record world =
  pending_verifications :: "pending_verification list"
  linked_accounts :: "linked_account list"
  members :: "string \<times> string \<Rightarrow> guild_member option"

text \<open>
  Everything the code is told by its collaborators and cannot compute: the answers of the
  upstream API, the \<^verbatim>\<open>error\<close> field of each store response (\<open>None\<close> when the store
  carries the request out), the row of a guild configuration, the values the store
  generates for a new row, and the failures of the chat platform. Each answer is a function
  of the request.
\<close>

record env =
  user_status :: user_status_api
  user_info :: user_info_api
  store_error :: "store_request \<Rightarrow> thrown option"
  guild_config_row :: "string \<Rightarrow> guild_config option"
  pending_defaults :: "pending_verification \<Rightarrow> string \<times> int option"
  linked_account_id :: "string \<Rightarrow> string \<Rightarrow> string \<Rightarrow> string"
  guilds_cache :: "string \<Rightarrow> bool"
  members_fetch_error :: "string \<Rightarrow> string \<Rightarrow> thrown option"
  roles_add_error :: "string \<Rightarrow> string \<Rightarrow> thrown option"
  roles_remove_error :: "string \<Rightarrow> string list \<Rightarrow> thrown option"

text \<open>
  \<^verbatim>\<open>getGuildConfig\<close>: the error code \<^verbatim>\<open>PGRST116\<close> (no row) is not thrown, the data, absent
  then, is returned.
\<close>

definition getGuildConfig :: "env \<Rightarrow> string \<Rightarrow> thrown + guild_config option" where
  "getGuildConfig env guildId =
     (case store_error env (SelectGuildConfig guildId) of
        Some error \<Rightarrow>
          if err_code error \<noteq> StrCode ''PGRST116'' then Inl error else Inr None
      | None \<Rightarrow> Inr (guild_config_row env guildId))"

definition same_key :: "string \<Rightarrow> string \<Rightarrow> string \<Rightarrow> pending_verification \<Rightarrow> bool" where
  "same_key discord_user_id guild_id username row =
     (pv_discord_user_id row = discord_user_id \<and> pv_guild_id row = guild_id \<and>
      pv_username row = username)"

text \<open>
  \<^verbatim>\<open>createPendingVerification\<close>: the response of the delete is not looked at, so a
  delete the store refuses leaves the table as it is and the insert follows all the same;
  the insert passes neither \<^verbatim>\<open>id\<close> nor \<^verbatim>\<open>started_at\<close>, which the store generates.
\<close>

definition createPendingVerification ::
  "env \<Rightarrow> pending_verification \<Rightarrow> world \<Rightarrow> (thrown + pending_verification) \<times> world" where
  "createPendingVerification env verification w =
     (let discord_user_id = pv_discord_user_id verification;
          guild_id = pv_guild_id verification;
          username = pv_username verification;
          w1 = (case store_error env (DeletePendingByKey discord_user_id guild_id username) of
                  Some _ \<Rightarrow> w
                | None \<Rightarrow>
                    w\<lparr> pending_verifications :=
                         filter (\<lambda>row. \<not> same_key discord_user_id guild_id username row)
                           (pending_verifications w) \<rparr>)
      in case store_error env (InsertPending verification) of
           Some error \<Rightarrow> (Inl error, w1)
         | None \<Rightarrow>
             let data = verification\<lparr> pv_id := fst (pending_defaults env verification),
                                      pv_started_at := snd (pending_defaults env verification) \<rparr>
             in (Inr data, w1\<lparr> pending_verifications := pending_verifications w1 @ [data] \<rparr>))"

text \<open>\<open>now\<close> is the clock the query is built with.\<close>

definition getPendingVerifications ::
  "env \<Rightarrow> int \<Rightarrow> string \<Rightarrow> string \<Rightarrow> world \<Rightarrow> thrown + pending_verification list" where
  "getPendingVerifications env now discordUserId guildId w =
     (case store_error env (SelectPending discordUserId guildId) of
        Some error \<Rightarrow> Inl error
      | None \<Rightarrow>
          Inr (filter (\<lambda>row. pv_discord_user_id row = discordUserId \<and> pv_guild_id row = guildId \<and>
                              pv_expires_at row > now)
                 (pending_verifications w)))"

definition deletePendingVerification :: "env \<Rightarrow> string \<Rightarrow> world \<Rightarrow> (thrown + unit) \<times> world" where
  "deletePendingVerification env verificationId w =
     (case store_error env (DeletePendingById verificationId) of
        Some error \<Rightarrow> (Inl error, w)
      | None \<Rightarrow>
          (Inr (), w\<lparr> pending_verifications :=
                        filter (\<lambda>row. pv_id row \<noteq> verificationId) (pending_verifications w) \<rparr>))"

definition same_account :: "string \<Rightarrow> string \<Rightarrow> string \<Rightarrow> linked_account \<Rightarrow> bool" where
  "same_account discord_user_id guild_id username row =
     (la_discord_user_id row = discord_user_id \<and> la_guild_id row = guild_id \<and>
      la_username row = username)"

text \<open>
  \<^verbatim>\<open>createLinkedAccount\<close>: an upsert on (discord_user_id, guild_id, username); \<open>now\<close> is the
  clock read for \<^verbatim>\<open>verified_at\<close>.
\<close>

definition createLinkedAccount ::
  "env \<Rightarrow> int \<Rightarrow> string \<Rightarrow> string \<Rightarrow> string \<Rightarrow> string option \<Rightarrow> world \<Rightarrow> (thrown + unit) \<times> world" where
  "createLinkedAccount env now discord_user_id guild_id username rank w =
     (case store_error env (UpsertLinkedAccount discord_user_id guild_id username) of
        Some error \<Rightarrow> (Inl error, w)
      | None \<Rightarrow>
          if list_ex (same_account discord_user_id guild_id username) (linked_accounts w)
          then (Inr (), w\<lparr> linked_accounts :=
                  map (\<lambda>row. if same_account discord_user_id guild_id username row
                              then row\<lparr> la_verified := True, la_verified_at := Some now, la_rank := rank \<rparr>
                              else row) (linked_accounts w) \<rparr>)
          else (Inr (), w\<lparr> linked_accounts := linked_accounts w @
                  [\<lparr> la_id = linked_account_id env discord_user_id guild_id username,
                      la_discord_user_id = discord_user_id, la_guild_id = guild_id,
                      la_username = username, la_verified = True,
                      la_verified_at = Some now, la_rank = rank \<rparr>] \<rparr>))"

definition getAllLinkedAccounts :: "env \<Rightarrow> world \<Rightarrow> thrown + linked_account list" where
  "getAllLinkedAccounts env w =
     (case store_error env SelectAllLinked of
        Some error \<Rightarrow> Inl error
      | None \<Rightarrow> Inr (filter la_verified (linked_accounts w)))"

definition updateLinkedAccountRank :: "env \<Rightarrow> string \<Rightarrow> string \<Rightarrow> world \<Rightarrow> (thrown + unit) \<times> world" where
  "updateLinkedAccountRank env accountId newRank w =
     (case store_error env (UpdateLinkedRank accountId newRank) of
        Some error \<Rightarrow> (Inl error, w)
      | None \<Rightarrow>
          (Inr (), w\<lparr> linked_accounts :=
                        map (\<lambda>row. if la_id row = accountId then row\<lparr> la_rank := Some newRank \<rparr> else row)
                          (linked_accounts w) \<rparr>))"

section \<open>Role assignment (utils/roleManager.ts)\<close>

record role_assignment_results =
  verifiedRole :: bool
  rankRole :: bool
  errors :: "string list"

text \<open>
  \<^verbatim>\<open>member.roles.add\<close> and \<^verbatim>\<open>member.roles.remove\<close>: the request is recorded; unless the
  platform rejects it, the member's roles change.
\<close>

definition roles_add :: "env \<Rightarrow> guild_member \<Rightarrow> string \<Rightarrow> string \<Rightarrow> (thrown + unit) \<times> guild_member" where
  "roles_add env member role reason =
     (let requested = member\<lparr> gm_calls := gm_calls member @ [RolesAdd role reason] \<rparr>
      in case roles_add_error env (gm_id member) role of
           Some error \<Rightarrow> (Inl error, requested)
         | None \<Rightarrow>
             (Inr (), requested\<lparr> gm_roles :=
                        (if role \<in> set (gm_roles member) then gm_roles member
                         else gm_roles member @ [role]) \<rparr>))"

definition roles_remove :: "env \<Rightarrow> guild_member \<Rightarrow> string list \<Rightarrow> string \<Rightarrow> (thrown + unit) \<times> guild_member" where
  "roles_remove env member roles reason =
     (let requested = member\<lparr> gm_calls := gm_calls member @ [RolesRemove roles reason] \<rparr>
      in case roles_remove_error env (gm_id member) roles of
           Some error \<Rightarrow> (Inl error, requested)
         | None \<Rightarrow>
             (Inr (), requested\<lparr> gm_roles := filter (\<lambda>r. r \<notin> set roles) (gm_roles member) \<rparr>))"

text \<open>The \<^verbatim>\<open>try\<close> block of \<^verbatim>\<open>assignVerifiedRole\<close>. An empty role id is falsy.\<close>

definition assignVerifiedRole_try :: "env \<Rightarrow> guild_member \<Rightarrow> string \<Rightarrow> (thrown + bool) \<times> guild_member" where
  "assignVerifiedRole_try env member guildId =
     (case getGuildConfig env guildId of
        Inl error \<Rightarrow> (Inl error, member)
      | Inr None \<Rightarrow> (Inr False, member)
      | Inr (Some config) \<Rightarrow>
          (case gc_verified_role_id config of
             None \<Rightarrow> (Inr False, member)
           | Some verified_role_id \<Rightarrow>
               if verified_role_id = [] then (Inr False, member)
               else if verified_role_id \<notin> set (gm_guild_roles member) then (Inr False, member)
               else if verified_role_id \<in> set (gm_roles member) then (Inr True, member)
               else
                 (case roles_add env member verified_role_id ''CP Account Verified'' of
                    (Inl error, member') \<Rightarrow> (Inl error, member')
                  | (Inr _, member') \<Rightarrow> (Inr True, member'))))"

text \<open>The \<^verbatim>\<open>catch\<close> clause turns every thrown value into the result \<^verbatim>\<open>false\<close>.\<close>

definition assignVerifiedRole :: "env \<Rightarrow> guild_member \<Rightarrow> string \<Rightarrow> (thrown + bool) \<times> guild_member" where
  "assignVerifiedRole env member guildId =
     (case assignVerifiedRole_try env member guildId of
        (Inl error, member') \<Rightarrow> (Inr False, member')
      | (Inr result, member') \<Rightarrow> (Inr result, member'))"

text \<open>The \<^verbatim>\<open>try\<close> block of \<^verbatim>\<open>assignRankRole\<close>. An empty rank and an empty role id are falsy.\<close>

definition assignRankRole_try :: "env \<Rightarrow> guild_member \<Rightarrow> string \<Rightarrow> string \<Rightarrow> (thrown + bool) \<times> guild_member" where
  "assignRankRole_try env member guildId rank =
     (if rank = [] then (Inr False, member)
      else
        case getGuildConfig env guildId of
          Inl error \<Rightarrow> (Inl error, member)
        | Inr None \<Rightarrow> (Inr False, member)
        | Inr (Some config) \<Rightarrow>
            (case gc_rank_role_map config of
               None \<Rightarrow> (Inr False, member)
             | Some rankRoleMap \<Rightarrow>
                 let normalizedRank = toLowerCase rank in
                 (case map_of rankRoleMap normalizedRank of
                    None \<Rightarrow> (Inr False, member)
                  | Some roleId \<Rightarrow>
                      if roleId = [] then (Inr False, member)
                      else if roleId \<notin> set (gm_guild_roles member) then (Inr False, member)
                      else
                        let allRankRoleIds = map snd rankRoleMap;
                            rolesToRemove =
                              filter (\<lambda>r. r \<in> set allRankRoleIds \<and> r \<noteq> roleId) (gm_roles member)
                        in
                        (case (if length rolesToRemove > 0
                               then roles_remove env member rolesToRemove ''Updating Codeforces rank role''
                               else (Inr (), member)) of
                           (Inl error, member1) \<Rightarrow> (Inl error, member1)
                         | (Inr _, member1) \<Rightarrow>
                             (case (if roleId \<notin> set (gm_roles member1)
                                    then roles_add env member1 roleId (''Codeforces rank: '' @ rank)
                                    else (Inr (), member1)) of
                                (Inl error, member2) \<Rightarrow> (Inl error, member2)
                              | (Inr _, member2) \<Rightarrow> (Inr True, member2))))))"

text \<open>The two conditional role requests that end the \<^verbatim>\<open>try\<close> block, each as a step of its own.\<close>

definition remove_step :: "env \<Rightarrow> guild_member \<Rightarrow> string list \<Rightarrow> (thrown + unit) \<times> guild_member" where
  "remove_step env member rolesToRemove =
     (if length rolesToRemove > 0
      then roles_remove env member rolesToRemove ''Updating Codeforces rank role''
      else (Inr (), member))"

definition add_step :: "env \<Rightarrow> guild_member \<Rightarrow> string \<Rightarrow> string \<Rightarrow> (thrown + unit) \<times> guild_member" where
  "add_step env member1 roleId rank =
     (if roleId \<notin> set (gm_roles member1)
      then roles_add env member1 roleId (''Codeforces rank: '' @ rank)
      else (Inr (), member1))"

definition assignRankRole :: "env \<Rightarrow> guild_member \<Rightarrow> string \<Rightarrow> string \<Rightarrow> (thrown + bool) \<times> guild_member" where
  "assignRankRole env member guildId rank =
     (case assignRankRole_try env member guildId rank of
        (Inl error, member') \<Rightarrow> (Inr False, member')
      | (Inr result, member') \<Rightarrow> (Inr result, member'))"

text \<open>
  \<^verbatim>\<open>assignVerificationRoles\<close>: each half in its own \<^verbatim>\<open>try\<close>, a thrown value pushed to
  \<^verbatim>\<open>errors\<close>. A rank of \<^verbatim>\<open>null\<close> and an empty one are falsy.
\<close>

definition assignVerificationRoles ::
  "env \<Rightarrow> guild_member \<Rightarrow> string \<Rightarrow> string option \<Rightarrow> (thrown + role_assignment_results) \<times> guild_member" where
  "assignVerificationRoles env member guildId rank =
     (let results = \<lparr> verifiedRole = False, rankRole = False, errors = [] \<rparr>;
          (results1, member1) =
            (case assignVerifiedRole env member guildId of
               (Inr r, m) \<Rightarrow> (results\<lparr> verifiedRole := r \<rparr>, m)
             | (Inl error, m) \<Rightarrow>
                 (results\<lparr> errors := errors results @
                     [''Failed to assign verified role: '' @ errorMessage error] \<rparr>, m));
          (results2, member2) =
            (case rank of
               None \<Rightarrow> (results1, member1)
             | Some rk \<Rightarrow>
                 if rk = [] then (results1, member1)
                 else
                   (case assignRankRole env member1 guildId rk of
                      (Inr r, m) \<Rightarrow> (results1\<lparr> rankRole := r \<rparr>, m)
                    | (Inl error, m) \<Rightarrow>
                        (results1\<lparr> errors := errors results1 @
                            [''Failed to assign rank role: '' @ errorMessage error] \<rparr>, m)))
      in (Inr results2, member2))"

section \<open>The /verify command (commands/verify.ts)\<close>

datatype verify_result =
    VerificationResultSuccess string string "string option" role_assignment_results
  | VerificationResultFailure string string "string option" "string option option" "string option"

definition is_digit :: "char \<Rightarrow> bool" where
  "is_digit c = (48 \<le> (of_char c :: nat) \<and> (of_char c :: nat) \<le> 57)"

definition is_letter :: "char \<Rightarrow> bool" where
  "is_letter c =
     ((65 \<le> (of_char c :: nat) \<and> (of_char c :: nat) \<le> 90) \<or>
      (97 \<le> (of_char c :: nat) \<and> (of_char c :: nat) \<le> 122))"

definition parseInt :: "string \<Rightarrow> int" where
  "parseInt ds = foldl (\<lambda>acc c. acc * 10 + (int (of_char c) - 48)) 0 ds"

text \<open>The pattern \<^verbatim>\<open>^(\d+)([A-Za-z]\d*)$\<close>: digits, one letter, digits to the end.\<close>

definition parseCodeforcesProblemId :: "string \<Rightarrow> thrown + (int \<times> string)" where
  "parseCodeforcesProblemId problemId =
     (let contest = takeWhile is_digit problemId;
          rest = dropWhile is_digit problemId
      in case rest of
           [] \<Rightarrow> Inl (Error (''Invalid problem ID format: '' @ problemId))
         | c # tail \<Rightarrow>
             if contest \<noteq> [] \<and> is_letter c \<and> list_all is_digit tail
             then Inr (parseInt contest, toUpperCase (c # tail))
             else Inl (Error (''Invalid problem ID format: '' @ problemId)))"

text \<open>
  The clock readings of one iteration: by \<^verbatim>\<open>isExpired\<close>, by the default of a null
  \<^verbatim>\<open>started_at\<close>, by \<^verbatim>\<open>createLinkedAccount\<close> and by \<^verbatim>\<open>getRemainingTime\<close>.
\<close>

record verify_clock =
  t_isExpired :: int
  t_startedDefault :: int
  t_verifiedAt :: int
  t_remaining :: int

text \<open>The first inner \<^verbatim>\<open>try\<close> block: the check and, when verified, the best-effort rank.\<close>

definition checkPending_try ::
  "env \<Rightarrow> verify_clock \<Rightarrow> pending_verification \<Rightarrow> thrown + (verification_result \<times> string option)" where
  "checkPending_try env clock pending =
     (case parseCodeforcesProblemId (pv_problem_id pending) of
        Inl error \<Rightarrow> Inl error
      | Inr (cid, index) \<Rightarrow>
          (case checkCompilationErrorSubmission (user_status env) (pv_username pending) cid index
                  (case pv_started_at pending of Some t \<Rightarrow> t | None \<Rightarrow> t_startedDefault clock) of
             Inl error \<Rightarrow> Inl error
           | Inr verificationResult \<Rightarrow>
               if verified verificationResult then
                 (case getUserRank (user_info env) (pv_username pending) of
                    Inr rank \<Rightarrow> Inr (verificationResult, Some (toLowerCase rank))
                  | Inl _ \<Rightarrow> Inr (verificationResult, None))
               else Inr (verificationResult, None)))"

text \<open>The second inner \<^verbatim>\<open>try\<close> block: link the account, delete the session, assign the roles.\<close>

definition saveVerified_try ::
  "env \<Rightarrow> verify_clock \<Rightarrow> string \<Rightarrow> string \<Rightarrow> pending_verification \<Rightarrow> string option \<Rightarrow>
   world \<times> guild_member \<Rightarrow> (thrown + verify_result) \<times> (world \<times> guild_member)" where
  "saveVerified_try env clock userId guildId pending userRank st =
     (case st of (w, member) \<Rightarrow>
        (case createLinkedAccount env (t_verifiedAt clock) userId guildId (pv_username pending) userRank w of
           (Inl error, w1) \<Rightarrow> (Inl error, (w1, member))
         | (Inr _, w1) \<Rightarrow>
             (case deletePendingVerification env (pv_id pending) w1 of
                (Inl error, w2) \<Rightarrow> (Inl error, (w2, member))
              | (Inr _, w2) \<Rightarrow>
                  (case assignVerificationRoles env member guildId userRank of
                     (Inl error, member') \<Rightarrow> (Inl error, (w2, member'))
                   | (Inr roleResults, member') \<Rightarrow>
                       (Inr (VerificationResultSuccess (pv_username pending)
                               ''Account verified successfully!'' userRank roleResults),
                        (w2, member'))))))"

text \<open>
  One iteration of the loop over the pending verifications. A thrown value that leaves
  the iteration ends the loop.
\<close>

definition verifyPending ::
  "env \<Rightarrow> verify_clock \<Rightarrow> string \<Rightarrow> string \<Rightarrow> pending_verification \<Rightarrow>
   world \<times> guild_member \<Rightarrow> (thrown + verify_result) \<times> (world \<times> guild_member)" where
  "verifyPending env clock userId guildId pending st =
     (if isExpired (t_isExpired clock) (pv_expires_at pending) then
        (case deletePendingVerification env (pv_id pending) (fst st) of
           (Inl error, w') \<Rightarrow> (Inl error, (w', snd st))
         | (Inr _, w') \<Rightarrow>
             (Inr (VerificationResultFailure (pv_username pending)
                     ''Verification expired. Please start a new verification with `/link`.''
                     None None None),
              (w', snd st)))
      else
        (case checkPending_try env clock pending of
           Inl error \<Rightarrow>
             (Inr (VerificationResultFailure (pv_username pending)
                     (''Failed to check submissions: '' @ errorMessage error) None None None), st)
         | Inr (verificationResult, userRank) \<Rightarrow>
             if verified verificationResult then
               (case saveVerified_try env clock userId guildId pending userRank st of
                  (Inr result, st') \<Rightarrow> (Inr result, st')
                | (Inl error, st') \<Rightarrow>
                    (Inr (VerificationResultFailure (pv_username pending)
                            (''Verification successful but failed to save: '' @ errorMessage error)
                            None None None), st'))
             else
               (let remaining = getRemainingTime (t_remaining clock) (pv_expires_at pending)
                in (Inr (VerificationResultFailure (pv_username pending)
                           (if message verificationResult = [] then ''No valid Compilation Error submission found.''
                            else message verificationResult)
                           (Some (pv_problem_url pending)) (Some (pv_problem_name pending))
                           (Some remaining)), st))))"

fun verifyLoop ::
  "env \<Rightarrow> (pending_verification \<Rightarrow> verify_clock) \<Rightarrow> string \<Rightarrow> string \<Rightarrow> pending_verification list \<Rightarrow>
   verify_result list \<Rightarrow> world \<times> guild_member \<Rightarrow> (thrown + verify_result list) \<times> (world \<times> guild_member)" where
  "verifyLoop env clocks userId guildId [] results st = (Inr results, st)"
| "verifyLoop env clocks userId guildId (pending # rest) results st =
     (case verifyPending env (clocks pending) userId guildId pending st of
        (Inl error, st') \<Rightarrow> (Inl error, st')
      | (Inr result, st') \<Rightarrow> verifyLoop env clocks userId guildId rest (results @ [result]) st')"

text \<open>What the command answers: a fixed text, the list of results, or the text of a thrown value.\<close>

datatype reply = ReplyServerOnly | ReplyNoPending | ReplyResults "verify_result list" | ReplyError string

definition execute ::
  "env \<Rightarrow> int \<Rightarrow> (pending_verification \<Rightarrow> verify_clock) \<Rightarrow> string \<Rightarrow> string option \<Rightarrow>
   world \<times> guild_member \<Rightarrow> reply \<times> (world \<times> guild_member)" where
  "execute env now clocks userId guildId st =
     (case guildId of
        None \<Rightarrow> (ReplyServerOnly, st)
      | Some gid \<Rightarrow>
          (case getPendingVerifications env now userId gid (fst st) of
             Inl error \<Rightarrow> (ReplyError (errorMessage error), st)
           | Inr pendingVerifications \<Rightarrow>
               if length pendingVerifications = 0 then (ReplyNoPending, st)
               else
                 (case verifyLoop env clocks userId gid pendingVerifications [] st of
                    (Inr results, st') \<Rightarrow> (ReplyResults results, st')
                  | (Inl error, st') \<Rightarrow> (ReplyError (errorMessage error), st'))))"

section \<open>Role reconciliation (utils/roleSync.ts)\<close>

record sync_results =
  totalProcessed :: nat
  rolesUpdated :: nat
  sync_errors :: "string list"
  skipped :: nat

text \<open>
  The \<^verbatim>\<open>Map\<close> from guild id to accounts, as the list of its entries in insertion order:
  a new key goes to the end, an account is pushed onto the list of its key.
\<close>

fun map_push :: "string \<Rightarrow> linked_account \<Rightarrow> (string \<times> linked_account list) list \<Rightarrow> (string \<times> linked_account list) list" where
  "map_push k account [] = [(k, [account])]"
| "map_push k account ((k', existing) # entries) =
     (if k' = k then (k', existing @ [account]) # entries
      else (k', existing) # map_push k account entries)"

definition accountsByGuild :: "linked_account list \<Rightarrow> (string \<times> linked_account list) list" where
  "accountsByGuild allAccounts = foldl (\<lambda>m account. map_push (la_guild_id account) account m) [] allAccounts"

text \<open>\<^verbatim>\<open>guild.members.fetch\<close>: rejected by the platform, or the member as the guild has it.\<close>

definition members_fetch :: "env \<Rightarrow> string \<Rightarrow> string \<Rightarrow> world \<Rightarrow> thrown + guild_member option" where
  "members_fetch env guildId userId w =
     (case members_fetch_error env guildId userId of
        Some error \<Rightarrow> Inl error
      | None \<Rightarrow> Inr (members w (guildId, userId)))"

text \<open>The inner \<^verbatim>\<open>try\<close> block: fetch the member and assign the rank role.\<close>

definition syncMember_try :: "env \<Rightarrow> string \<Rightarrow> linked_account \<Rightarrow> string \<Rightarrow> world \<Rightarrow> (thrown + bool) \<times> world" where
  "syncMember_try env guildId account currentRank w =
     (case members_fetch env guildId (la_discord_user_id account) w of
        Inl error \<Rightarrow> (Inl error, w)
      | Inr None \<Rightarrow> (Inr False, w)
      | Inr (Some member) \<Rightarrow>
          (case assignRankRole env member guildId currentRank of
             (Inl error, member') \<Rightarrow>
               (Inl error, w\<lparr> members := (members w)((guildId, la_discord_user_id account) \<mapsto> member') \<rparr>)
           | (Inr roleAssigned, member') \<Rightarrow>
               (Inr roleAssigned, w\<lparr> members := (members w)((guildId, la_discord_user_id account) \<mapsto> member') \<rparr>)))"

text \<open>Its \<^verbatim>\<open>catch\<close> clause: the error code 10007 (unknown member) is logged, anything else thrown on.\<close>

definition syncMember :: "env \<Rightarrow> string \<Rightarrow> linked_account \<Rightarrow> string \<Rightarrow> world \<Rightarrow> (thrown + bool) \<times> world" where
  "syncMember env guildId account currentRank w =
     (case syncMember_try env guildId account currentRank w of
        (Inr roleAssigned, w') \<Rightarrow> (Inr roleAssigned, w')
      | (Inl memberError, w') \<Rightarrow>
          if instanceofError memberError \<and> err_code memberError = NumCode 10007
          then (Inr False, w')
          else (Inl memberError, w'))"

text \<open>
  The \<^verbatim>\<open>try\<close> block of one account; the result says whether \<^verbatim>\<open>rolesUpdated\<close> is
  incremented.
\<close>

definition syncAccount_try :: "env \<Rightarrow> string \<Rightarrow> linked_account \<Rightarrow> world \<Rightarrow> (thrown + bool) \<times> world" where
  "syncAccount_try env guildId account w =
     (case getUserInfo (user_info env) (la_username account) of
        Inl error \<Rightarrow> (Inl error, w)
      | Inr cfUserInfo \<Rightarrow>
          let currentRank = toLowerCase (ui_rank cfUserInfo);
              storedRank = map_option toLowerCase (la_rank account)
          in if currentRank \<noteq> [] \<and> Some currentRank \<noteq> storedRank then
               (case updateLinkedAccountRank env (la_id account) currentRank w of
                  (Inl error, w1) \<Rightarrow> (Inl error, w1)
                | (Inr _, w1) \<Rightarrow> syncMember env guildId account currentRank w1)
             else (Inr False, w))"

definition sync_error_text :: "string \<Rightarrow> linked_account \<Rightarrow> thrown \<Rightarrow> string" where
  "sync_error_text guildId account error =
     ''Failed to sync '' @ la_username account @ '' in guild '' @ guildId @ '': '' @ errorMessage error"

text \<open>
  One iteration of the loop over the accounts of a guild. The first component of a
  result is the thrown value that leaves the code, if any.
\<close>

definition syncAccount ::
  "env \<Rightarrow> string \<Rightarrow> linked_account \<Rightarrow> sync_results \<times> world \<Rightarrow> thrown option \<times> (sync_results \<times> world)" where
  "syncAccount env guildId account st =
     (let results = (fst st)\<lparr> totalProcessed := totalProcessed (fst st) + 1 \<rparr>
      in case syncAccount_try env guildId account (snd st) of
           (Inr roleUpdated, w') \<Rightarrow>
             (None, ((if roleUpdated then results\<lparr> rolesUpdated := rolesUpdated results + 1 \<rparr> else results), w'))
         | (Inl error, w') \<Rightarrow>
             (None, (results\<lparr> sync_errors := sync_errors results @ [sync_error_text guildId account error] \<rparr>, w')))"

fun syncAccounts ::
  "env \<Rightarrow> string \<Rightarrow> linked_account list \<Rightarrow> sync_results \<times> world \<Rightarrow> thrown option \<times> (sync_results \<times> world)" where
  "syncAccounts env guildId [] st = (None, st)"
| "syncAccounts env guildId (account # accounts) st =
     (case syncAccount env guildId account st of
        (Some error, st') \<Rightarrow> (Some error, st')
      | (None, st') \<Rightarrow> syncAccounts env guildId accounts st')"

definition no_rank_roles :: "guild_config option \<Rightarrow> bool" where
  "no_rank_roles config =
     (case config of
        None \<Rightarrow> True
      | Some c \<Rightarrow> (case gc_rank_role_map c of None \<Rightarrow> True | Some m \<Rightarrow> length (map fst m) = 0))"

text \<open>One iteration of the loop over the guilds.\<close>

definition syncGuild ::
  "env \<Rightarrow> string \<times> linked_account list \<Rightarrow> sync_results \<times> world \<Rightarrow> thrown option \<times> (sync_results \<times> world)" where
  "syncGuild env entry st =
     (case entry of (guildId, accounts) \<Rightarrow>
        (case getGuildConfig env guildId of
           Inl error \<Rightarrow> (Some error, st)
         | Inr config \<Rightarrow>
             if no_rank_roles config
             then (None, ((fst st)\<lparr> skipped := skipped (fst st) + length accounts \<rparr>, snd st))
             else if \<not> guilds_cache env guildId
             then (None, ((fst st)\<lparr> skipped := skipped (fst st) + length accounts \<rparr>, snd st))
             else syncAccounts env guildId accounts st))"

fun syncGuilds ::
  "env \<Rightarrow> (string \<times> linked_account list) list \<Rightarrow> sync_results \<times> world \<Rightarrow> thrown option \<times> (sync_results \<times> world)" where
  "syncGuilds env [] st = (None, st)"
| "syncGuilds env (entry # entries) st =
     (case syncGuild env entry st of
        (Some error, st') \<Rightarrow> (Some error, st')
      | (None, st') \<Rightarrow> syncGuilds env entries st')"

text \<open>The outer \<^verbatim>\<open>try\<close> block of \<^verbatim>\<open>syncAllRoles\<close>.\<close>

definition syncAllRoles_try :: "env \<Rightarrow> sync_results \<times> world \<Rightarrow> thrown option \<times> (sync_results \<times> world)" where
  "syncAllRoles_try env st =
     (case getAllLinkedAccounts env (snd st) of
        Inl error \<Rightarrow> (Some error, st)
      | Inr allAccounts \<Rightarrow>
          if length allAccounts = 0 then (None, st)
          else syncGuilds env (accountsByGuild allAccounts) st)"

definition syncAllRoles :: "env \<Rightarrow> world \<Rightarrow> sync_results \<times> world" where
  "syncAllRoles env w =
     (let results = \<lparr> totalProcessed = 0, rolesUpdated = 0, sync_errors = [], skipped = 0 \<rparr>
      in case syncAllRoles_try env (results, w) of
           (None, st') \<Rightarrow> st'
         | (Some error, (results', w')) \<Rightarrow>
             (results'\<lparr> sync_errors := sync_errors results' @ [''Critical error: '' @ errorMessage error] \<rparr>, w'))"

section \<open>Notions of the specification\<close>

text \<open>
  Case-insensitive comparison as the specification words it: two strings of the same
  length that agree position by position up to the case of a letter.
\<close>

definition same_letter :: "char \<Rightarrow> char \<Rightarrow> bool" where
  "same_letter a b =
     (a = b \<or>
      (is_letter a \<and> is_letter b \<and>
       ((of_char a :: nat) + 32 = of_char b \<or> (of_char b :: nat) + 32 = of_char a)))"

fun equal_ignoring_case :: "string \<Rightarrow> string \<Rightarrow> bool" where
  "equal_ignoring_case [] [] = True"
| "equal_ignoring_case (a # s) (b # t) = (same_letter a b \<and> equal_ignoring_case s t)"
| "equal_ignoring_case [] (b # t) = False"
| "equal_ignoring_case (a # s) [] = False"

text \<open>
  A fetched submission is to the challenge problem, carries the compile-error verdict, lies
  in the proof window of a session started at \<open>startedAt\<close>.
\<close>

definition to_problem :: "int \<Rightarrow> string \<Rightarrow> codeforces_submission \<Rightarrow> bool" where
  "to_problem cid pidx s =
     (cp_contestId (cs_problem s) = cid \<and> equal_ignoring_case (cp_index (cs_problem s)) pidx)"

definition in_window :: "int \<Rightarrow> codeforces_submission \<Rightarrow> bool" where
  "in_window startedAt s = (cs_creationTimeSeconds s \<ge> startedAt div 1000)"

definition compile_error :: "codeforces_submission \<Rightarrow> bool" where
  "compile_error s = (cs_verdict s = Some ''COMPILATION_ERROR'')"

text \<open>A sequence of session-creation calls, each on the table the previous one left.\<close>

fun create_calls :: "env \<Rightarrow> pending_verification list \<Rightarrow> world \<Rightarrow> world" where
  "create_calls env [] w = w"
| "create_calls env (verification # rest) w =
     create_calls env rest (snd (createPendingVerification env verification w))"

text \<open>The row a creation call is answered with does not depend on the table.\<close>

definition issued :: "env \<Rightarrow> pending_verification \<Rightarrow> thrown + pending_verification" where
  "issued env verification =
     (case store_error env (InsertPending verification) of
        Some error \<Rightarrow> Inl error
      | None \<Rightarrow> Inr (verification\<lparr> pv_id := fst (pending_defaults env verification),
                                      pv_started_at := snd (pending_defaults env verification) \<rparr>))"

text \<open>The sessions of a key in the table.\<close>

definition sessions_of :: "string \<Rightarrow> string \<Rightarrow> string \<Rightarrow> world \<Rightarrow> pending_verification list" where
  "sessions_of discord_user_id guild_id username w =
     filter (same_key discord_user_id guild_id username) (pending_verifications w)"

text \<open>The rank roles a guild has configured, and those of them a member holds.\<close>

definition rank_role_set :: "(string \<times> string) list \<Rightarrow> string set" where
  "rank_role_set rankRoleMap = set (map snd rankRoleMap)"

definition rank_roles_held :: "(string \<times> string) list \<Rightarrow> guild_member \<Rightarrow> string set" where
  "rank_roles_held rankRoleMap member = set (gm_roles member) \<inter> rank_role_set rankRoleMap"

text \<open>The role requests made on a member between two of its states.\<close>

definition calls_since :: "guild_member \<Rightarrow> guild_member \<Rightarrow> role_call list" where
  "calls_since before after = drop (length (gm_calls before)) (gm_calls after)"

text \<open>A guild whose accounts the reconciliation processes: rank roles configured, guild in the cache.\<close>

definition guild_synced :: "env \<Rightarrow> string \<Rightarrow> bool" where
  "guild_synced env guildId =
     (case getGuildConfig env guildId of
        Inl _ \<Rightarrow> False
      | Inr config \<Rightarrow> \<not> no_rank_roles config \<and> guilds_cache env guildId)"

text \<open>The descriptor the issuer builds from a problem of the pool.\<close>

definition to_random_problem :: "pool_problem \<Rightarrow> random_problem" where
  "to_random_problem problem =
     \<lparr> rp_id = string_of_int (pp_contestId problem) @ pp_index problem,
       rp_contestId = pp_contestId problem,
       rp_index = pp_index problem,
       rp_name = pp_name problem,
       rp_rating = (case pp_rating problem of None \<Rightarrow> 0 | Some r \<Rightarrow> r),
       rp_url = ''https://codeforces.com/problemset/problem/'' @
                string_of_int (pp_contestId problem) @ ''/'' @ pp_index problem \<rparr>"

text \<open>The thrown value with which the try block of an account ends, if it ends with one.\<close>

definition failure_of :: "thrown + 'a \<Rightarrow> thrown option" where
  "failure_of outcome = (case outcome of Inl error \<Rightarrow> Some error | Inr _ \<Rightarrow> None)"

definition sync_failure :: "env \<Rightarrow> string \<Rightarrow> linked_account \<Rightarrow> world \<Rightarrow> thrown option" where
  "sync_failure env guildId account w = failure_of (fst (syncAccount_try env guildId account w))"

text \<open>The errors a run over the accounts of a guild records, in their order.\<close>

definition account_errors :: "env \<Rightarrow> world \<Rightarrow> string \<Rightarrow> linked_account list \<Rightarrow> string list" where
  "account_errors env w guildId accounts =
     List.map_filter
       (\<lambda>account. map_option (sync_error_text guildId account) (sync_failure env guildId account w))
       accounts"

text \<open>What one guild contributes to the counts and to the errors of a run.\<close>

definition group_errors :: "env \<Rightarrow> world \<Rightarrow> string \<times> linked_account list \<Rightarrow> string list" where
  "group_errors env w entry =
     (if guild_synced env (fst entry) then account_errors env w (fst entry) (snd entry) else [])"

definition group_processed :: "env \<Rightarrow> string \<times> linked_account list \<Rightarrow> nat" where
  "group_processed env entry = (if guild_synced env (fst entry) then length (snd entry) else 0)"

definition group_skipped :: "env \<Rightarrow> string \<times> linked_account list \<Rightarrow> nat" where
  "group_skipped env entry = (if guild_synced env (fst entry) then 0 else length (snd entry))"

text \<open>A sum over the accounts of all groups, and the pairs of guild id and account the groups hold.\<close>

definition group_sum :: "(string \<Rightarrow> linked_account \<Rightarrow> nat) \<Rightarrow> (string \<times> linked_account list) list \<Rightarrow> nat" where
  "group_sum h entries = sum_list (map (\<lambda>entry. sum_list (map (h (fst entry)) (snd entry))) entries)"

definition grouped :: "(string \<times> linked_account list) list \<Rightarrow> (string \<times> linked_account) set" where
  "grouped entries = set (concat (map (\<lambda>entry. map (Pair (fst entry)) (snd entry)) entries))"

section \<open>Concrete scenarios\<close>

text \<open>
  A session started at 1700000000500 ms on problem 1500A, and three submissions of the
  handle \<^verbatim>\<open>alice\<close>, most recent first: a compile error two minutes after the start, a wrong
  answer one minute after it, and a compile error made before it.
\<close>

definition ce_after :: codeforces_submission where
  "ce_after =
     \<lparr> cs_id = 7, cs_problem = \<lparr> cp_contestId = 1500, cp_index = ''a'', cp_name = ''Puzzle'' \<rparr>,
       cs_verdict = Some ''COMPILATION_ERROR'', cs_creationTimeSeconds = 1700000120,
       cs_programmingLanguage = ''C++'' \<rparr>"

definition wa_after :: codeforces_submission where
  "wa_after =
     \<lparr> cs_id = 6, cs_problem = \<lparr> cp_contestId = 1500, cp_index = ''A'', cp_name = ''Puzzle'' \<rparr>,
       cs_verdict = Some ''WRONG_ANSWER'', cs_creationTimeSeconds = 1700000060,
       cs_programmingLanguage = ''C++'' \<rparr>"

definition ce_before :: codeforces_submission where
  "ce_before =
     \<lparr> cs_id = 5, cs_problem = \<lparr> cp_contestId = 1500, cp_index = ''A'', cp_name = ''Puzzle'' \<rparr>,
       cs_verdict = Some ''COMPILATION_ERROR'', cs_creationTimeSeconds = 1699999999,
       cs_programmingLanguage = ''C++'' \<rparr>"

text \<open>A compile error stamped in the second the session started in, half a second before the start.\<close>

definition ce_start_second :: codeforces_submission where
  "ce_start_second =
     \<lparr> cs_id = 4, cs_problem = \<lparr> cp_contestId = 1500, cp_index = ''A'', cp_name = ''Puzzle'' \<rparr>,
       cs_verdict = Some ''COMPILATION_ERROR'', cs_creationTimeSeconds = 1700000000,
       cs_programmingLanguage = ''C++'' \<rparr>"

definition history_api :: "codeforces_submission list \<Rightarrow> user_status_api" where
  "history_api history handle from count =
     (if handle = ''alice'' then Inr (take count (drop (from - 1) history))
      else Inl (Error ''handle: User not found''))"

text \<open>
  Answers of the problem-set request: one whose first problem has a lower-case index and
  whose second lies outside the rating band, an empty one, a failed one; and two states of
  the cache.
\<close>

definition lower_index_response :: problemset_response where
  "lower_index_response =
     \<lparr> ps_status = ''OK'',
       ps_result = Some [\<lparr> pp_contestId = 1500, pp_index = ''a'', pp_name = ''Puzzle'', pp_rating = Some 1600 \<rparr>,
                         \<lparr> pp_contestId = 4, pp_index = ''A'', pp_name = ''Watermelon'', pp_rating = Some 800 \<rparr>] \<rparr>"

definition no_cache :: problem_cache where
  "no_cache = \<lparr> cfProblemsCache = None, cfCacheTimestamp = None \<rparr>"

definition stale_cache :: problem_cache where
  "stale_cache =
     \<lparr> cfProblemsCache = Some [\<lparr> pp_contestId = 1700, pp_index = ''B'', pp_name = ''Bridge'', pp_rating = Some 2000 \<rparr>],
       cfCacheTimestamp = Some 1000 \<rparr>"

definition empty_response :: problemset_response where
  "empty_response = \<lparr> ps_status = ''OK'', ps_result = Some [] \<rparr>"

definition failed_response :: problemset_response where
  "failed_response = \<lparr> ps_status = ''FAILED'', ps_result = None \<rparr>"

definition bridge_problem :: random_problem where
  "bridge_problem =
     \<lparr> rp_id = ''1700B'', rp_contestId = 1700, rp_index = ''B'', rp_name = ''Bridge'',
       rp_rating = 2000, rp_url = ''https://codeforces.com/problemset/problem/1700/B'' \<rparr>"

text \<open>
  An environment in which every collaborator answers and nothing fails, with one guild
  that has a verified role and two rank roles; a member of it before and after a rank
  change.
\<close>

definition quiet_env :: env where
  "quiet_env =
     \<lparr> user_status = history_api [ce_after, wa_after, ce_before],
       user_info = (\<lambda>handles. Inr [\<lparr> cu_handle = handles, cu_rank = Some ''Expert'', cu_rating = Some 1650,
                                       cu_maxRank = Some ''Expert'', cu_maxRating = Some 1700,
                                       cu_avatar = None, cu_titlePhoto = None \<rparr>]),
       store_error = (\<lambda>request. None),
       guild_config_row =
         (\<lambda>guildId. if guildId = ''guild-1''
            then Some \<lparr> gc_guild_id = ''guild-1'', gc_verified_role_id = Some ''role-verified'',
                        gc_rank_role_map = Some [(''pupil'', ''role-pupil''), (''expert'', ''role-expert'')] \<rparr>
            else None),
       pending_defaults = (\<lambda>verification. (''session-'' @ pv_problem_id verification, Some 1700000000500)),
       linked_account_id = (\<lambda>discord_user_id guild_id username. ''account-'' @ username),
       guilds_cache = (\<lambda>guildId. guildId = ''guild-1''),
       members_fetch_error = (\<lambda>guildId userId. None),
       roles_add_error = (\<lambda>userId role. None),
       roles_remove_error = (\<lambda>userId roles. None) \<rparr>"

definition pupil_member :: guild_member where
  "pupil_member =
     \<lparr> gm_id = ''user-1'', gm_roles = [''role-everyone'', ''role-pupil''],
       gm_guild_roles = [''role-everyone'', ''role-verified'', ''role-pupil'', ''role-expert''],
       gm_calls = [] \<rparr>"

definition expert_member :: guild_member where
  "expert_member =
     \<lparr> gm_id = ''user-1'', gm_roles = [''role-everyone'', ''role-expert''],
       gm_guild_roles = [''role-everyone'', ''role-verified'', ''role-pupil'', ''role-expert''],
       gm_calls = [RolesRemove [''role-pupil''] ''Updating Codeforces rank role'',
                   RolesAdd ''role-expert'' ''Codeforces rank: Expert''] \<rparr>"

text \<open>An environment in which the store answers every request with an error.\<close>

definition store_down_env :: env where
  "store_down_env = quiet_env\<lparr> store_error := (\<lambda>request. Some (Error ''connection refused'')) \<rparr>"

text \<open>
  Two requests to link the handle \<^verbatim>\<open>alice\<close> by the same user in the same guild, the
  session the store holds after the second, and a clock that reads after its expiry.
\<close>

definition link_first :: pending_verification where
  "link_first =
     \<lparr> pv_id = '''', pv_discord_user_id = ''user-1'', pv_guild_id = ''guild-1'', pv_username = ''alice'',
       pv_problem_id = ''1500A'', pv_problem_url = ''https://codeforces.com/problemset/problem/1500/A'',
       pv_problem_name = Some ''Puzzle'', pv_expires_at = 1700000600500, pv_started_at = None \<rparr>"

definition link_second :: pending_verification where
  "link_second =
     \<lparr> pv_id = '''', pv_discord_user_id = ''user-1'', pv_guild_id = ''guild-1'', pv_username = ''alice'',
       pv_problem_id = ''1700B'', pv_problem_url = ''https://codeforces.com/problemset/problem/1700/B'',
       pv_problem_name = Some ''Bridge'', pv_expires_at = 1700000601500, pv_started_at = None \<rparr>"

definition empty_world :: world where
  "empty_world = \<lparr> pending_verifications = [], linked_accounts = [], members = (\<lambda>key. None) \<rparr>"

definition session_second :: pending_verification where
  "session_second = link_second\<lparr> pv_id := ''session-1700B'', pv_started_at := Some 1700000000500 \<rparr>"

definition late_clock :: verify_clock where
  "late_clock =
     \<lparr> t_isExpired = 1700000700000, t_startedDefault = 1700000700000,
       t_verifiedAt = 1700000700000, t_remaining = 1700000700000 \<rparr>"

definition world_second :: world where
  "world_second = empty_world\<lparr> pending_verifications := [session_second] \<rparr>"

text \<open>
  A reconciliation over three linked accounts in two guilds, both configured and in the
  cache; the rank lookup of the first account times out.
\<close>

definition sync_env :: env where
  "sync_env =
     quiet_env\<lparr>
       user_info :=
         (\<lambda>handles. if handles = ''alice'' then Inl (Error ''Codeforces API request timed out'')
                     else Inr [\<lparr> cu_handle = handles, cu_rank = Some ''Expert'', cu_rating = Some 1650,
                                  cu_maxRank = Some ''Expert'', cu_maxRating = Some 1700,
                                  cu_avatar = None, cu_titlePhoto = None \<rparr>]),
       guild_config_row :=
         (\<lambda>guildId. Some \<lparr> gc_guild_id = guildId, gc_verified_role_id = None,
                             gc_rank_role_map = Some [(''pupil'', ''role-pupil''), (''expert'', ''role-expert'')] \<rparr>),
       guilds_cache := (\<lambda>guildId. True) \<rparr>"

definition account_alice :: linked_account where
  "account_alice =
     \<lparr> la_id = ''account-alice'', la_discord_user_id = ''user-1'', la_guild_id = ''guild-1'',
       la_username = ''alice'', la_verified = True, la_verified_at = Some 1700000000000,
       la_rank = Some ''pupil'' \<rparr>"

definition account_bob :: linked_account where
  "account_bob =
     \<lparr> la_id = ''account-bob'', la_discord_user_id = ''user-2'', la_guild_id = ''guild-1'',
       la_username = ''bob'', la_verified = True, la_verified_at = Some 1700000000000,
       la_rank = Some ''expert'' \<rparr>"

definition account_carol :: linked_account where
  "account_carol =
     \<lparr> la_id = ''account-carol'', la_discord_user_id = ''user-3'', la_guild_id = ''guild-2'',
       la_username = ''carol'', la_verified = True, la_verified_at = Some 1700000000000,
       la_rank = Some ''pupil'' \<rparr>"

definition sync_world :: world where
  "sync_world = empty_world\<lparr> linked_accounts := [account_alice, account_bob, account_carol] \<rparr>"

section \<open>Case-insensitive comparison\<close>

lemma of_char_toUpperCase:
  "(of_char (char_toUpperCase c) :: nat) =
     (if 97 \<le> (of_char c :: nat) \<and> (of_char c :: nat) \<le> 122 then of_char c - 32 else of_char c)"
  by (auto simp: char_toUpperCase_def)

lemma char_toUpperCase_eq_iff:
  "(char_toUpperCase a = char_toUpperCase b) = same_letter a b"
proof -
  have "(char_toUpperCase a = char_toUpperCase b) =
        ((of_char (char_toUpperCase a) :: nat) = of_char (char_toUpperCase b))"
    by simp
  also have "\<dots> = same_letter a b"
    unfolding of_char_toUpperCase same_letter_def is_letter_def
    using of_char_eq_iff[of a b, where ?'a = nat] by (auto simp del: of_char_eq_iff)
  finally show ?thesis .
qed

lemma toUpperCase_eq_iff:
  "(toUpperCase s = toUpperCase t) = equal_ignoring_case s t"
  by (induction s t rule: equal_ignoring_case.induct)
     (simp_all add: toUpperCase_def char_toUpperCase_eq_iff)

section \<open>The submission check\<close>

lemma isCompilationErrorMatch_iff:
  "isCompilationErrorMatch cid pidx startedAt (to_submission s) =
     (to_problem cid pidx s \<and> compile_error s \<and> in_window startedAt s)"
  by (simp add: isCompilationErrorMatch_def to_submission_def to_problem_def compile_error_def
      in_window_def isSubmissionAfterStart_def toUpperCase_eq_iff)

lemma isProblemSubmission_iff:
  "isProblemSubmission cid pidx startedAt (to_submission s) =
     (to_problem cid pidx s \<and> in_window startedAt s)"
  by (simp add: isProblemSubmission_def to_submission_def to_problem_def
      in_window_def isSubmissionAfterStart_def toUpperCase_eq_iff)

lemma find_map_conv: "find P (map f xs) = map_option f (find (\<lambda>x. P (f x)) xs)"
  by (induction xs) simp_all

lemma find_match_conv:
  "find (isCompilationErrorMatch cid pidx startedAt) (map to_submission fetched) =
   map_option to_submission
     (find (\<lambda>s. to_problem cid pidx s \<and> compile_error s \<and> in_window startedAt s) fetched)"
  by (simp add: find_map_conv isCompilationErrorMatch_iff)

lemma find_problem_conv:
  "find (isProblemSubmission cid pidx startedAt) (map to_submission fetched) =
   map_option to_submission
     (find (\<lambda>s. to_problem cid pidx s \<and> in_window startedAt s) fetched)"
  by (simp add: find_map_conv isProblemSubmission_iff)

lemma isSubmissionAfterStart_ms:
  "isSubmissionAfterStart t startedAt = (startedAt < (t + 1) * 1000)"
  unfolding isSubmissionAfterStart_def Let_def by auto

lemma find_filter_keep:
  assumes "\<And>x. P x \<Longrightarrow> Q x"
  shows "find P (filter Q xs) = find P xs"
  using assms by (induction xs) auto

lemmas check_eval =
  checkCompilationErrorSubmission_def getRecentSubmissions_def history_api_def to_submission_def
  isCompilationErrorMatch_def isProblemSubmission_def isSubmissionAfterStart_def
  toUpperCase_eq_iff same_letter_def is_letter_def verdict_text_def
  ce_after_def wa_after_def ce_before_def

text \<open>
  Claim C1. When the upstream API answers the request for the 20 most recent submissions
  of the username, \<^verbatim>\<open>checkCompilationErrorSubmission\<close> returns a result, and the result is
  verified exactly when one of the fetched submissions has the contest id of the challenge,
  its index up to the case of letters, the verdict \<^verbatim>\<open>COMPILATION_ERROR\<close> and a creation
  time, in epoch seconds, not below the session start converted to epoch seconds.
\<close>

theorem checkCompilationErrorSubmission_verified_iff:
  assumes "api username 1 20 = Inr fetched"
  shows "\<exists>r. checkCompilationErrorSubmission api username cid pidx startedAt = Inr r \<and>
             (verified r \<longleftrightarrow>
                (\<exists>s\<in>set fetched.
                   cp_contestId (cs_problem s) = cid \<and>
                   equal_ignoring_case (cp_index (cs_problem s)) pidx \<and>
                   cs_verdict s = Some ''COMPILATION_ERROR'' \<and>
                   cs_creationTimeSeconds s \<ge> startedAt div 1000))"
proof (cases "find (isCompilationErrorMatch cid pidx startedAt) (map to_submission fetched)")
  case None
  then have "\<forall>s\<in>set fetched. \<not> isCompilationErrorMatch cid pidx startedAt (to_submission s)"
    by (simp add: find_None_iff)
  then have no: "\<not> (\<exists>s\<in>set fetched. to_problem cid pidx s \<and> compile_error s \<and> in_window startedAt s)"
    by (simp add: isCompilationErrorMatch_iff)
  from None assms show ?thesis
    using no
    by (auto simp: checkCompilationErrorSubmission_def getRecentSubmissions_def
        to_problem_def compile_error_def in_window_def split: option.splits)
next
  case (Some m)
  then have "m \<in> set (map to_submission fetched)" "isCompilationErrorMatch cid pidx startedAt m"
    by (auto simp: find_Some_iff)
  then obtain s where "s \<in> set fetched" "isCompilationErrorMatch cid pidx startedAt (to_submission s)"
    by auto
  then have yes: "\<exists>s\<in>set fetched. to_problem cid pidx s \<and> compile_error s \<and> in_window startedAt s"
    by (auto simp: isCompilationErrorMatch_iff)
  from Some assms show ?thesis
    using yes
    by (auto simp: checkCompilationErrorSubmission_def getRecentSubmissions_def
        to_problem_def compile_error_def in_window_def)
qed

theorem checkCompilationErrorSubmission_verified_iff_witness:
  "history_api [ce_after, wa_after, ce_before] ''alice'' 1 20 = Inr [ce_after, wa_after, ce_before] \<and>
   (\<exists>r. checkCompilationErrorSubmission (history_api [ce_after, wa_after, ce_before])
           ''alice'' 1500 ''A'' 1700000000500 = Inr r \<and> verified r)"
  using checkCompilationErrorSubmission_verified_iff
    [of "history_api [ce_after, wa_after, ce_before]" "''alice''" "[ce_after, wa_after, ce_before]"
        1500 "''A''" 1700000000500]
  by (simp add: history_api_def ce_after_def same_letter_def is_letter_def)

text \<open>
  Claim C4, as the code has it. The start is floored to whole epoch seconds before the
  comparison. A submission whose creation time, in epoch seconds, is below the floored
  start never makes the check verified: taking such submissions out of the fetched
  history leaves the verified flag as it is, and the submission a verified result returns
  is never one of them, whatever its verdict and problem.
\<close>

theorem stale_submission_never_verifies:
  assumes "api username 1 20 = Inr fetched"
    and "api' username 1 20 = Inr (filter (\<lambda>s. \<not> cs_creationTimeSeconds s < startedAt div 1000) fetched)"
  shows "\<exists>r r'. checkCompilationErrorSubmission api username cid pidx startedAt = Inr r \<and>
                checkCompilationErrorSubmission api' username cid pidx startedAt = Inr r' \<and>
                verified r = verified r' \<and>
                (verified r \<longrightarrow>
                   (\<exists>s\<in>set fetched. submission r = Some (to_submission s) \<and>
                      \<not> cs_creationTimeSeconds s < startedAt div 1000))"
proof -
  let ?P = "\<lambda>s. to_problem cid pidx s \<and> compile_error s \<and> in_window startedAt s"
  let ?fresh = "\<lambda>s. \<not> cs_creationTimeSeconds s < startedAt div 1000"
  have same: "find ?P (filter ?fresh fetched) = find ?P fetched"
    by (rule find_filter_keep) (simp add: in_window_def)
  show ?thesis
  proof (cases "find ?P fetched")
    case None
    with same assms show ?thesis
      by (simp add: checkCompilationErrorSubmission_def getRecentSubmissions_def find_match_conv
          split: option.splits)
  next
    case (Some s)
    then have "s \<in> set fetched" "in_window startedAt s"
      by (auto simp: find_Some_iff)
    with Some same assms show ?thesis
      by (auto simp: checkCompilationErrorSubmission_def getRecentSubmissions_def find_match_conv
          in_window_def)
  qed
qed

theorem stale_submission_never_verifies_witness:
  "history_api [wa_after, ce_before] ''alice'' 1 20 = Inr [wa_after, ce_before] \<and>
   history_api [wa_after] ''alice'' 1 20 =
     Inr (filter (\<lambda>s. \<not> cs_creationTimeSeconds s < 1700000000500 div 1000) [wa_after, ce_before]) \<and>
   (\<exists>r. checkCompilationErrorSubmission (history_api [wa_after, ce_before])
           ''alice'' 1500 ''A'' 1700000000500 = Inr r \<and> \<not> verified r)"
proof -
  have h1: "history_api [wa_after, ce_before] ''alice'' 1 20 = Inr [wa_after, ce_before]"
    by (simp add: history_api_def)
  have h2: "history_api [wa_after] ''alice'' 1 20 =
     Inr (filter (\<lambda>s. \<not> cs_creationTimeSeconds s < 1700000000500 div 1000) [wa_after, ce_before])"
    by (simp add: history_api_def wa_after_def ce_before_def)
  have "\<exists>r'. checkCompilationErrorSubmission (history_api [wa_after]) ''alice'' 1500 ''A'' 1700000000500
          = Inr r' \<and> \<not> verified r'"
    by (simp add: check_eval)
  with stale_submission_never_verifies
         [where api = "history_api [wa_after, ce_before]" and api' = "history_api [wa_after]"
            and username = "''alice''" and fetched = "[wa_after, ce_before]"
            and startedAt = 1700000000500 and cid = 1500 and pidx = "''A''", OF h1 h2]
       h1 h2 show ?thesis
    by auto
qed

text \<open>
  Claim C4 as stated fails: a compile error to the challenge problem stamped with the
  second 1700000000 is earlier than a start at 1700000000500 ms, and the check is verified
  on it, since the floored start is that same second.
\<close>

theorem start_second_submission_verifies:
  "cs_creationTimeSeconds ce_start_second * 1000 < 1700000000500 \<and>
   isSubmissionAfterStart (cs_creationTimeSeconds ce_start_second) 1700000000500 \<and>
   checkCompilationErrorSubmission (history_api [ce_start_second]) ''alice'' 1500 ''A'' 1700000000500 =
     Inr \<lparr> verified = True, submission = Some (to_submission ce_start_second),
           message = ''Compilation Error submission found!'' \<rparr>"
  by (simp add: checkCompilationErrorSubmission_def getRecentSubmissions_def history_api_def
      isCompilationErrorMatch_iff to_problem_def compile_error_def in_window_def
      isSubmissionAfterStart_def same_letter_def ce_start_second_def)

text \<open>
  Claim C5. When no fetched submission is a compile error to the challenge problem in the
  window, the result is not verified; if some submission to the problem lies in the window,
  the message names the verdict of the most recent one, which is not
  \<^verbatim>\<open>COMPILATION_ERROR\<close>; if none does, the message is the generic not-found text.
\<close>

theorem verdict_named_or_not_found:
  assumes "api username 1 20 = Inr fetched"
    and "\<not> (\<exists>s\<in>set fetched. to_problem cid pidx s \<and> compile_error s \<and> in_window startedAt s)"
  shows \<open>\<exists>r. checkCompilationErrorSubmission api username cid pidx startedAt = Inr r \<and>
             \<not> verified r \<and>
             (case find (\<lambda>s. to_problem cid pidx s \<and> in_window startedAt s) fetched of
                Some s \<Rightarrow>
                  cs_verdict s \<noteq> Some ''COMPILATION_ERROR'' \<and>
                  submission r = Some (to_submission s) \<and>
                  message r = ''Found submission but verdict was "'' @
                              verdict_text (cs_verdict s) @
                              ''" instead of "COMPILATION_ERROR"''

              | None \<Rightarrow>
                  submission r = None \<and>
                  message r = ''No submission found to the specified problem'')\<close>
proof -
  have none: "find (\<lambda>s. to_problem cid pidx s \<and> compile_error s \<and> in_window startedAt s) fetched = None"
    using assms(2) by (auto simp: find_None_iff)
  show ?thesis
  proof (cases "find (\<lambda>s. to_problem cid pidx s \<and> in_window startedAt s) fetched")
    case None
    with none assms(1) show ?thesis
      by (simp add: checkCompilationErrorSubmission_def getRecentSubmissions_def find_match_conv
          find_problem_conv)
  next
    case (Some s)
    then have "s \<in> set fetched" "to_problem cid pidx s" "in_window startedAt s"
      by (auto simp: find_Some_iff)
    with assms(2) have "\<not> compile_error s" by blast
    with Some none assms(1) show ?thesis
      by (simp add: checkCompilationErrorSubmission_def getRecentSubmissions_def find_match_conv
          find_problem_conv compile_error_def to_submission_def)
  qed
qed

theorem verdict_named_or_not_found_witness:
  \<open>history_api [wa_after, ce_before] ''alice'' 1 20 = Inr [wa_after, ce_before] \<and>
   \<not> (\<exists>s\<in>set [wa_after, ce_before].
         to_problem 1500 ''A'' s \<and> compile_error s \<and> in_window 1700000000500 s) \<and>
   (\<exists>r. checkCompilationErrorSubmission (history_api [wa_after, ce_before])
           ''alice'' 1500 ''A'' 1700000000500 = Inr r \<and>
        message r = ''Found submission but verdict was "WRONG_ANSWER" instead of "COMPILATION_ERROR"'')\<close>
proof -
  have h1: "history_api [wa_after, ce_before] ''alice'' 1 20 = Inr [wa_after, ce_before]"
    by (simp add: history_api_def)
  have h2: "\<not> (\<exists>s\<in>set [wa_after, ce_before].
         to_problem 1500 ''A'' s \<and> compile_error s \<and> in_window 1700000000500 s)"
    by (simp add: wa_after_def ce_before_def to_problem_def compile_error_def in_window_def)
  have f: "find (\<lambda>s. to_problem 1500 ''A'' s \<and> in_window 1700000000500 s) [wa_after, ce_before]
             = Some wa_after"
    by (simp add: wa_after_def ce_before_def to_problem_def in_window_def same_letter_def)
  have v: "verdict_text (cs_verdict wa_after) = ''WRONG_ANSWER''"
    by (simp add: wa_after_def verdict_text_def)
  from verdict_named_or_not_found
         [where api = "history_api [wa_after, ce_before]" and username = "''alice''"
            and fetched = "[wa_after, ce_before]" and startedAt = 1700000000500
            and cid = 1500 and pidx = "''A''", OF h1 h2]
       f v h1 h2 show ?thesis
    by auto
qed

section \<open>The challenge issuer\<close>

lemma string_of_int_1500: "string_of_int 1500 = ''1500''"
  by code_simp

lemma toUpperCase_a: "toUpperCase ''a'' = ''A''"
  by code_simp

lemma string_of_int_1700: "string_of_int 1700 = ''1700''"
  by code_simp

lemmas pool_eval =
  getRandomCodeforcesProblem_def fetchCodeforcesProblems_def fetchCodeforcesProblems_try_def fresh_cache_def
  in_rating_band_def CF_MIN_RATING_def CF_MAX_RATING_def CF_CACHE_DURATION_def Let_def
  lower_index_response_def no_cache_def stale_cache_def empty_response_def failed_response_def
  bridge_problem_def to_random_problem_def Error_def string_of_int_1500 string_of_int_1700

lemma fetchCodeforcesProblems_try_Inl:
  assumes "fst (fetchCodeforcesProblems_try now http cache) = Inl e"
  shows "snd (fetchCodeforcesProblems_try now http cache) = cache"
  using assms
  by (auto simp: fetchCodeforcesProblems_try_def Let_def split: sum.splits option.splits if_splits)

lemma getRandomCodeforcesProblem_drawn:
  assumes "getRandomCodeforcesProblem now0 now http random cache = (Inr p, cache')"
  shows "\<exists>problems. fetchCodeforcesProblems now0 now http cache = (Inr problems, cache') \<and>
           (\<exists>q\<in>set problems. p = to_random_problem q)"
proof (cases "fetchCodeforcesProblems now0 now http cache")
  case (Pair res c)
  show ?thesis
  proof (cases res)
    case (Inl e)
    with Pair assms show ?thesis
      by (simp add: getRandomCodeforcesProblem_def)
  next
    case (Inr problems)
    let ?i = "\<lfloor>random * real (length problems)\<rfloor>"
    from Pair Inr assms have in_range: "0 \<le> ?i \<and> ?i < int (length problems)" and c: "c = cache'"
      and p: "p = to_random_problem (problems ! nat ?i)"
      by (auto simp: getRandomCodeforcesProblem_def to_random_problem_def Let_def split: if_splits)
    from in_range have "nat ?i < length problems" by linarith
    then have "problems ! nat ?i \<in> set problems" by (rule nth_mem)
    with Pair Inr c p show ?thesis by auto
  qed
qed

text \<open>
  Claim C6, as the code has it. The id of a drawn problem is the decimal contest id
  followed by the index exactly as the pool has it, with no change of case; the URL is
  the problem-set address followed by the contest id, a slash and that index.
\<close>

theorem random_problem_id_and_url:
  assumes "getRandomCodeforcesProblem now0 now http random cache = (Inr p, cache')"
  shows "rp_id p = string_of_int (rp_contestId p) @ rp_index p \<and>
         rp_url p = ''https://codeforces.com/problemset/problem/'' @
                    string_of_int (rp_contestId p) @ ''/'' @ rp_index p \<and>
         (\<exists>problems. fst (fetchCodeforcesProblems now0 now http cache) = Inr problems \<and>
            (\<exists>q\<in>set problems. rp_contestId p = pp_contestId q \<and> rp_index p = pp_index q))"
  using getRandomCodeforcesProblem_drawn [OF assms]
  by (auto simp: to_random_problem_def)

theorem random_problem_id_and_url_witness:
  "getRandomCodeforcesProblem 5000000 5000000 (Inr failed_response) (1 / 2) stale_cache =
     (Inr bridge_problem, stale_cache) \<and>
   rp_id bridge_problem = string_of_int 1700 @ ''B'' \<and>
   rp_url bridge_problem = ''https://codeforces.com/problemset/problem/'' @ string_of_int 1700 @ ''/B''"
proof -
  have h: "getRandomCodeforcesProblem 5000000 5000000 (Inr failed_response) (1 / 2) stale_cache =
     (Inr bridge_problem, stale_cache)"
    by (simp add: pool_eval)
  from random_problem_id_and_url [OF h] h show ?thesis
    by (simp add: bridge_problem_def)
qed

text \<open>
  Claim C6 as stated fails: for a pool problem with contest id 1500 and index \<^verbatim>\<open>a\<close> the id
  is \<^verbatim>\<open>1500a\<close>, not the contest id followed by the upper-cased index.
\<close>

theorem problem_id_not_upper_cased:
  "fst (getRandomCodeforcesProblem 0 0 (Inr lower_index_response) 0 no_cache) =
     Inr \<lparr> rp_id = ''1500a'', rp_contestId = 1500, rp_index = ''a'', rp_name = ''Puzzle'',
           rp_rating = 1600, rp_url = ''https://codeforces.com/problemset/problem/1500/a'' \<rparr> \<and>
   string_of_int 1500 @ toUpperCase ''a'' = ''1500A''"
  by (simp add: getRandomCodeforcesProblem_def fetchCodeforcesProblems_def fresh_cache_def
      fetchCodeforcesProblems_try_def lower_index_response_def no_cache_def in_rating_band_def
      CF_MIN_RATING_def CF_MAX_RATING_def Let_def string_of_int_1500 toUpperCase_a)

text \<open>
  Claim C7. When the refresh fails and there is no snapshot, the failure is the result of
  \<^verbatim>\<open>getRandomCodeforcesProblem\<close>; when it fails and there is a snapshot, the snapshot is
  served and the cache kept; an empty pool gives the error "No Codeforces problems
  available"; and a problem that is returned is always built from a problem of the pool
  that was served, never a default.
\<close>

theorem pool_failure_policy:
  "(fst (fetchCodeforcesProblems_try now_a http_a cache_a) = Inl e_a \<and> cfProblemsCache cache_a = None \<longrightarrow>
      fst (getRandomCodeforcesProblem t_a now_a http_a random_a cache_a) = Inl e_a) \<and>
   (fst (fetchCodeforcesProblems_try now_b http_b cache_b) = Inl e_b \<and> cfProblemsCache cache_b = Some snapshot \<longrightarrow>
      fetchCodeforcesProblems t_b now_b http_b cache_b = (Inr snapshot, cache_b)) \<and>
   (fst (fetchCodeforcesProblems t_c now_c http_c cache_c) = Inr [] \<longrightarrow>
      fst (getRandomCodeforcesProblem t_c now_c http_c random_c cache_c) =
        Inl (Error ''No Codeforces problems available'')) \<and>
   (fst (getRandomCodeforcesProblem t_d now_d http_d random_d cache_d) = Inr p \<longrightarrow>
      (\<exists>problems. fst (fetchCodeforcesProblems t_d now_d http_d cache_d) = Inr problems \<and>
         (\<exists>q\<in>set problems. p = to_random_problem q)))"
proof (intro conjI impI)
  assume a: "fst (fetchCodeforcesProblems_try now_a http_a cache_a) = Inl e_a \<and> cfProblemsCache cache_a = None"
  then have "fetchCodeforcesProblems_try now_a http_a cache_a = (Inl e_a, cache_a)"
    using fetchCodeforcesProblems_try_Inl [of now_a http_a cache_a e_a]
    by (cases "fetchCodeforcesProblems_try now_a http_a cache_a") simp
  with a show "fst (getRandomCodeforcesProblem t_a now_a http_a random_a cache_a) = Inl e_a"
    by (simp add: getRandomCodeforcesProblem_def fetchCodeforcesProblems_def fresh_cache_def)
next
  assume b: "fst (fetchCodeforcesProblems_try now_b http_b cache_b) = Inl e_b \<and> cfProblemsCache cache_b = Some snapshot"
  then have failed: "fetchCodeforcesProblems_try now_b http_b cache_b = (Inl e_b, cache_b)"
    using fetchCodeforcesProblems_try_Inl [of now_b http_b cache_b e_b]
    by (cases "fetchCodeforcesProblems_try now_b http_b cache_b") simp
  show "fetchCodeforcesProblems t_b now_b http_b cache_b = (Inr snapshot, cache_b)"
  proof (cases "fresh_cache t_b cache_b")
    case None
    with b failed show ?thesis
      by (simp add: fetchCodeforcesProblems_def)
  next
    case (Some cached)
    with b have "cached = snapshot"
      by (auto simp: fresh_cache_def split: option.splits if_splits)
    with Some show ?thesis
      by (simp add: fetchCodeforcesProblems_def)
  qed
next
  assume "fst (fetchCodeforcesProblems t_c now_c http_c cache_c) = Inr []"
  then show "fst (getRandomCodeforcesProblem t_c now_c http_c random_c cache_c) =
        Inl (Error ''No Codeforces problems available'')"
    by (auto simp: getRandomCodeforcesProblem_def split: prod.splits sum.splits)
next
  assume "fst (getRandomCodeforcesProblem t_d now_d http_d random_d cache_d) = Inr p"
  then obtain c where "getRandomCodeforcesProblem t_d now_d http_d random_d cache_d = (Inr p, c)"
    by (cases "getRandomCodeforcesProblem t_d now_d http_d random_d cache_d") auto
  from getRandomCodeforcesProblem_drawn [OF this]
  show "\<exists>problems. fst (fetchCodeforcesProblems t_d now_d http_d cache_d) = Inr problems \<and>
         (\<exists>q\<in>set problems. p = to_random_problem q)"
    by auto
qed

theorem pool_failure_policy_witness:
  "fst (fetchCodeforcesProblems_try 10 (Inl (Error ''timeout of 10000ms exceeded'')) no_cache) =
     Inl (Error ''timeout of 10000ms exceeded'') \<and>
   cfProblemsCache no_cache = None \<and>
   fst (getRandomCodeforcesProblem 10 10 (Inl (Error ''timeout of 10000ms exceeded'')) 0 no_cache) =
     Inl (Error ''timeout of 10000ms exceeded'') \<and>
   fst (fetchCodeforcesProblems_try 5000000 (Inr failed_response) stale_cache) =
     Inl (Error ''Codeforces API returned non-OK status'') \<and>
   cfProblemsCache stale_cache =
     Some [\<lparr> pp_contestId = 1700, pp_index = ''B'', pp_name = ''Bridge'', pp_rating = Some 2000 \<rparr>] \<and>
   fetchCodeforcesProblems 5000000 5000000 (Inr failed_response) stale_cache =
     (Inr [\<lparr> pp_contestId = 1700, pp_index = ''B'', pp_name = ''Bridge'', pp_rating = Some 2000 \<rparr>],
      stale_cache) \<and>
   fst (fetchCodeforcesProblems 10 10 (Inr empty_response) no_cache) = Inr [] \<and>
   fst (getRandomCodeforcesProblem 10 10 (Inr empty_response) 0 no_cache) =
     Inl (Error ''No Codeforces problems available'') \<and>
   fst (getRandomCodeforcesProblem 10 10 (Inr lower_index_response) 0 no_cache) =
     Inr (to_random_problem \<lparr> pp_contestId = 1500, pp_index = ''a'', pp_name = ''Puzzle'', pp_rating = Some 1600 \<rparr>) \<and>
   (\<exists>problems. fst (fetchCodeforcesProblems 10 10 (Inr lower_index_response) no_cache) = Inr problems \<and>
      (\<exists>q\<in>set problems.
         to_random_problem \<lparr> pp_contestId = 1500, pp_index = ''a'', pp_name = ''Puzzle'', pp_rating = Some 1600 \<rparr>
           = to_random_problem q))"
proof -
  have h1: "fst (fetchCodeforcesProblems_try 10 (Inl (Error ''timeout of 10000ms exceeded'')) no_cache) =
     Inl (Error ''timeout of 10000ms exceeded'') \<and> cfProblemsCache no_cache = None"
    by (simp add: fetchCodeforcesProblems_try_def no_cache_def)
  have h2: "fst (fetchCodeforcesProblems_try 5000000 (Inr failed_response) stale_cache) =
     Inl (Error ''Codeforces API returned non-OK status'') \<and>
     cfProblemsCache stale_cache =
     Some [\<lparr> pp_contestId = 1700, pp_index = ''B'', pp_name = ''Bridge'', pp_rating = Some 2000 \<rparr>]"
    by (simp add: fetchCodeforcesProblems_try_def failed_response_def stale_cache_def)
  have h3: "fst (fetchCodeforcesProblems 10 10 (Inr empty_response) no_cache) = Inr []"
    by (simp add: fetchCodeforcesProblems_def fetchCodeforcesProblems_try_def fresh_cache_def
        empty_response_def no_cache_def)
  have h4: "fst (getRandomCodeforcesProblem 10 10 (Inr lower_index_response) 0 no_cache) =
     Inr (to_random_problem \<lparr> pp_contestId = 1500, pp_index = ''a'', pp_name = ''Puzzle'', pp_rating = Some 1600 \<rparr>)"
    by (simp add: pool_eval)
  from pool_failure_policy
         [where now_a = 10 and http_a = "Inl (Error ''timeout of 10000ms exceeded'')"
            and cache_a = no_cache and e_a = "Error ''timeout of 10000ms exceeded''"
            and t_a = 10 and random_a = 0
            and now_b = 5000000 and http_b = "Inr failed_response" and cache_b = stale_cache
            and e_b = "Error ''Codeforces API returned non-OK status''" and t_b = 5000000
            and snapshot = "[\<lparr> pp_contestId = 1700, pp_index = ''B'', pp_name = ''Bridge'', pp_rating = Some 2000 \<rparr>]"
            and t_c = 10 and now_c = 10 and http_c = "Inr empty_response" and cache_c = no_cache
            and random_c = 0
            and t_d = 10 and now_d = 10 and http_d = "Inr lower_index_response"
            and cache_d = no_cache and random_d = 0
            and p = "to_random_problem \<lparr> pp_contestId = 1500, pp_index = ''a'', pp_name = ''Puzzle'', pp_rating = Some 1600 \<rparr>"]
       h1 h2 h3 h4
  show ?thesis by simp
qed

section \<open>Role assignment\<close>

lemma roles_remove_Inr:
  assumes "roles_remove env m rs reason = (Inr u, m')"
  shows "m' = m\<lparr> gm_calls := gm_calls m @ [RolesRemove rs reason],
                  gm_roles := filter (\<lambda>r. r \<notin> set rs) (gm_roles m) \<rparr>"
  using assms by (auto simp: roles_remove_def Let_def split: option.splits)

lemma roles_add_Inr:
  assumes "roles_add env m role reason = (Inr u, m')"
  shows "m' = m\<lparr> gm_calls := gm_calls m @ [RolesAdd role reason],
                  gm_roles := (if role \<in> set (gm_roles m) then gm_roles m else gm_roles m @ [role]) \<rparr>"
  using assms by (auto simp: roles_add_def Let_def split: option.splits)

lemma assignRankRole_try_found:
  assumes "rank \<noteq> []" "getGuildConfig env guildId = Inr (Some config)"
    "gc_rank_role_map config = Some rankRoleMap"
    "map_of rankRoleMap (toLowerCase rank) = Some roleId"
    "roleId \<noteq> []" "roleId \<in> set (gm_guild_roles member)"
  shows "assignRankRole_try env member guildId rank =
     (case remove_step env member
             (filter (\<lambda>r. r \<in> set (map snd rankRoleMap) \<and> r \<noteq> roleId) (gm_roles member)) of
        (Inl error, member1) \<Rightarrow> (Inl error, member1)
      | (Inr _, member1) \<Rightarrow>
          (case add_step env member1 roleId rank of
             (Inl error, member2) \<Rightarrow> (Inl error, member2)
           | (Inr _, member2) \<Rightarrow> (Inr True, member2)))"
  unfolding assignRankRole_try_def remove_step_def add_step_def Let_def
  using assms by simp

lemma assignRankRole_try_True_found:
  assumes "assignRankRole_try env member guildId rank = (Inr True, member')"
  shows "\<exists>config rankRoleMap roleId.
           rank \<noteq> [] \<and> getGuildConfig env guildId = Inr (Some config) \<and>
           gc_rank_role_map config = Some rankRoleMap \<and>
           map_of rankRoleMap (toLowerCase rank) = Some roleId \<and>
           roleId \<noteq> [] \<and> roleId \<in> set (gm_guild_roles member)"
proof (cases "rank = []")
  case True
  with assms show ?thesis by (simp add: assignRankRole_try_def)
next
  case rank: False
  show ?thesis
  proof (cases "getGuildConfig env guildId")
    case (Inl e)
    with rank assms show ?thesis by (simp add: assignRankRole_try_def)
  next
    case (Inr found)
    show ?thesis
    proof (cases found)
      case None
      with rank Inr assms show ?thesis by (simp add: assignRankRole_try_def)
    next
      case (Some config)
      show ?thesis
      proof (cases "gc_rank_role_map config")
        case None
        with rank Inr Some assms show ?thesis by (simp add: assignRankRole_try_def)
      next
        case map: (Some rankRoleMap)
        show ?thesis
        proof (cases "map_of rankRoleMap (toLowerCase rank)")
          case None
          with rank Inr Some map assms show ?thesis by (simp add: assignRankRole_try_def)
        next
          case role: (Some roleId)
          have nonempty: "roleId \<noteq> []"
          proof
            assume "roleId = []"
            with rank Inr Some map role assms show False
              by (simp add: assignRankRole_try_def)
          qed
          have "roleId \<in> set (gm_guild_roles member)"
          proof (rule ccontr)
            assume "roleId \<notin> set (gm_guild_roles member)"
            with nonempty rank Inr Some map role assms show False
              by (simp add: assignRankRole_try_def)
          qed
          with nonempty rank Inr Some map role show ?thesis by simp
        qed
      qed
    qed
  qed
qed

lemma remove_step_Inr:
  assumes "remove_step env member rs = (Inr u, m1)"
  shows "gm_roles m1 = filter (\<lambda>r. r \<notin> set rs) (gm_roles member)"
    and "gm_calls m1 = gm_calls member @
           (if rs = [] then [] else [RolesRemove rs ''Updating Codeforces rank role''])"
  using assms by (auto simp: remove_step_def dest!: roles_remove_Inr split: if_splits)

lemma add_step_Inr:
  assumes "add_step env m1 roleId rank = (Inr u, m2)"
  shows "gm_roles m2 = (if roleId \<in> set (gm_roles m1) then gm_roles m1 else gm_roles m1 @ [roleId])"
    and "gm_calls m2 = gm_calls m1 @
           (if roleId \<in> set (gm_roles m1) then [] else [RolesAdd roleId (''Codeforces rank: '' @ rank)])"
  using assms by (auto simp: add_step_def dest!: roles_add_Inr split: if_splits)

lemma assignRankRole_True_try:
  assumes "assignRankRole env member guildId rank = (Inr True, member')"
  shows "assignRankRole_try env member guildId rank = (Inr True, member')"
  using assms by (auto simp: assignRankRole_def split: prod.splits sum.splits)

lemma map_of_in_rank_role_set:
  "map_of rankRoleMap k = Some roleId \<Longrightarrow> roleId \<in> rank_role_set rankRoleMap"
  by (auto simp: rank_role_set_def dest: map_of_SomeD intro: rev_image_eqI)

lemma toLowerCase_Expert: "toLowerCase ''Expert'' = ''expert''"
  by code_simp

lemma toLowerCase_expert: "toLowerCase ''expert'' = ''expert''"
  by code_simp

lemmas role_eval =
  assignRankRole_def assignRankRole_try_def assignVerifiedRole_def assignVerifiedRole_try_def
  assignVerificationRoles_def getGuildConfig_def roles_remove_def roles_add_def Let_def
  quiet_env_def store_down_env_def pupil_member_def expert_member_def Error_def errorMessage_def
  toLowerCase_Expert toLowerCase_expert

text \<open>
  Claim C8. When \<^verbatim>\<open>assignRankRole\<close> returns true, the rank is mapped in the guild's
  configuration to a role that exists in the guild, and afterwards the member holds exactly
  that one of the configured rank roles; roles outside the configured set are as before;
  a removal is requested exactly when the member held another configured rank role, and
  the target role is requested exactly when the member did not hold it.
\<close>

theorem assignRankRole_exclusive:
  assumes "assignRankRole env member guildId rank = (Inr True, member')"
  shows "\<exists>config rankRoleMap roleId.
           getGuildConfig env guildId = Inr (Some config) \<and>
           gc_rank_role_map config = Some rankRoleMap \<and>
           map_of rankRoleMap (toLowerCase rank) = Some roleId \<and>
           roleId \<in> set (gm_guild_roles member) \<and>
           rank_roles_held rankRoleMap member' = {roleId} \<and>
           set (gm_roles member') - rank_role_set rankRoleMap =
             set (gm_roles member) - rank_role_set rankRoleMap \<and>
           ((\<exists>reason. RolesAdd roleId reason \<in> set (calls_since member member')) \<longleftrightarrow>
              roleId \<notin> set (gm_roles member)) \<and>
           ((\<exists>roles reason. RolesRemove roles reason \<in> set (calls_since member member')) \<longleftrightarrow>
              rank_roles_held rankRoleMap member - {roleId} \<noteq> {})"
proof -
  from assms have body: "assignRankRole_try env member guildId rank = (Inr True, member')"
    by (rule assignRankRole_True_try)
  from assignRankRole_try_True_found [OF body]
  obtain config rankRoleMap roleId where
    found: "rank \<noteq> []" "getGuildConfig env guildId = Inr (Some config)"
      "gc_rank_role_map config = Some rankRoleMap"
      "map_of rankRoleMap (toLowerCase rank) = Some roleId"
      "roleId \<noteq> []" "roleId \<in> set (gm_guild_roles member)"
    by blast
  let ?rs = "filter (\<lambda>r. r \<in> set (map snd rankRoleMap) \<and> r \<noteq> roleId) (gm_roles member)"
  from body assignRankRole_try_found [OF found]
  obtain u v m1 where
    rem: "remove_step env member ?rs = (Inr u, m1)" and
    add: "add_step env m1 roleId rank = (Inr v, member')"
    by (auto split: prod.splits sum.splits)
  note r1 = remove_step_Inr [OF rem] and r2 = add_step_Inr [OF add]
  have in_set: "roleId \<in> rank_role_set rankRoleMap"
    using found(4) by (rule map_of_in_rank_role_set)
  have roles1: "set (gm_roles m1) = set (gm_roles member) - (rank_role_set rankRoleMap - {roleId})"
    using r1(1) by (auto simp: rank_role_set_def)
  have roles2: "set (gm_roles member') = insert roleId (set (gm_roles m1))"
    using r2(1) by auto
  have held: "rank_roles_held rankRoleMap member' = {roleId}"
    using roles1 roles2 in_set by (auto simp: rank_roles_held_def)
  have others: "set (gm_roles member') - rank_role_set rankRoleMap =
             set (gm_roles member) - rank_role_set rankRoleMap"
    using roles1 roles2 in_set by auto
  have calls: "calls_since member member' =
      (if ?rs = [] then [] else [RolesRemove ?rs ''Updating Codeforces rank role'']) @
      (if roleId \<in> set (gm_roles m1) then [] else [RolesAdd roleId (''Codeforces rank: '' @ rank)])"
    using r1(2) r2(2) by (simp add: calls_since_def)
  have same: "roleId \<in> set (gm_roles m1) \<longleftrightarrow> roleId \<in> set (gm_roles member)"
    using roles1 by auto
  have adds: "(\<exists>reason. RolesAdd roleId reason \<in> set (calls_since member member')) \<longleftrightarrow>
              roleId \<notin> set (gm_roles member)"
    using calls same by auto
  have rs_empty: "?rs = [] \<longleftrightarrow> rank_roles_held rankRoleMap member - {roleId} = {}"
    by (auto simp: filter_empty_conv rank_roles_held_def rank_role_set_def)
  have removes: "(\<exists>roles reason. RolesRemove roles reason \<in> set (calls_since member member')) \<longleftrightarrow>
              rank_roles_held rankRoleMap member - {roleId} \<noteq> {}"
    using calls rs_empty by auto
  from found held others adds removes show ?thesis by blast
qed

theorem assignRankRole_exclusive_witness:
  "assignRankRole quiet_env pupil_member ''guild-1'' ''Expert'' = (Inr True, expert_member) \<and>
   rank_roles_held [(''pupil'', ''role-pupil''), (''expert'', ''role-expert'')] expert_member =
     {''role-expert''}"
proof -
  have h: "assignRankRole quiet_env pupil_member ''guild-1'' ''Expert'' = (Inr True, expert_member)"
    by (simp add: role_eval)
  have c: "getGuildConfig quiet_env ''guild-1'' =
             Inr (Some \<lparr> gc_guild_id = ''guild-1'', gc_verified_role_id = Some ''role-verified'',
                        gc_rank_role_map = Some [(''pupil'', ''role-pupil''), (''expert'', ''role-expert'')] \<rparr>)"
    by (simp add: getGuildConfig_def quiet_env_def)
  from assignRankRole_exclusive [OF h] obtain config rankRoleMap roleId where
    f: "getGuildConfig quiet_env ''guild-1'' = Inr (Some config)"
       "gc_rank_role_map config = Some rankRoleMap"
       "map_of rankRoleMap (toLowerCase ''Expert'') = Some roleId"
       "rank_roles_held rankRoleMap expert_member = {roleId}"
    by blast
  from f(1,2) c have "rankRoleMap = [(''pupil'', ''role-pupil''), (''expert'', ''role-expert'')]"
    by auto
  with f(3,4) h show ?thesis
    by (simp add: toLowerCase_Expert)
qed

lemma assignVerifiedRole_Inr: "\<exists>b m. assignVerifiedRole env member guildId = (Inr b, m)"
  by (cases "assignVerifiedRole_try env member guildId")
     (auto simp: assignVerifiedRole_def split: sum.splits)

lemma assignRankRole_Inr: "\<exists>b m. assignRankRole env member guildId rk = (Inr b, m)"
  by (cases "assignRankRole_try env member guildId rk")
     (auto simp: assignRankRole_def split: sum.splits)

lemma assignVerificationRoles_errors:
  "\<exists>results. fst (assignVerificationRoles env member guildId rank) = Inr results \<and> errors results = []"
proof -
  obtain b m where v: "assignVerifiedRole env member guildId = (Inr b, m)"
    using assignVerifiedRole_Inr by blast
  show ?thesis
  proof (cases rank)
    case None
    with v show ?thesis by (simp add: assignVerificationRoles_def Let_def)
  next
    case (Some rk)
    obtain b' m' where r: "assignRankRole env m guildId rk = (Inr b', m')"
      using assignRankRole_Inr by blast
    from v r Some show ?thesis
      by (cases "rk = []") (simp_all add: assignVerificationRoles_def Let_def)
  qed
qed

text \<open>
  Claim C10. \<^verbatim>\<open>assignVerifiedRole\<close> and \<^verbatim>\<open>assignRankRole\<close> always return a boolean, and
  \<^verbatim>\<open>false\<close> when their \<^verbatim>\<open>try\<close> block throws; so \<^verbatim>\<open>assignVerificationRoles\<close> always
  returns a result, and its list of errors is empty.
\<close>

theorem assignVerificationRoles_never_throws:
  "(\<exists>b. fst (assignVerifiedRole env member guildId) = Inr b) \<and>
   (\<exists>b. fst (assignRankRole env member guildId rk) = Inr b) \<and>
   (\<exists>results. fst (assignVerificationRoles env member guildId rank) = Inr results \<and>
      errors results = []) \<and>
   (fst (assignVerifiedRole_try env member guildId) = Inl e \<longrightarrow>
      fst (assignVerifiedRole env member guildId) = Inr False) \<and>
   (fst (assignRankRole_try env member guildId rk) = Inl e' \<longrightarrow>
      fst (assignRankRole env member guildId rk) = Inr False)"
proof (intro conjI impI)
  show "\<exists>b. fst (assignVerifiedRole env member guildId) = Inr b"
    using assignVerifiedRole_Inr [of env member guildId] by auto
  show "\<exists>b. fst (assignRankRole env member guildId rk) = Inr b"
    using assignRankRole_Inr [of env member guildId rk] by auto
  show "\<exists>results. fst (assignVerificationRoles env member guildId rank) = Inr results \<and>
      errors results = []"
    by (rule assignVerificationRoles_errors)
next
  assume "fst (assignVerifiedRole_try env member guildId) = Inl e"
  then show "fst (assignVerifiedRole env member guildId) = Inr False"
    by (cases "assignVerifiedRole_try env member guildId") (simp add: assignVerifiedRole_def)
next
  assume "fst (assignRankRole_try env member guildId rk) = Inl e'"
  then show "fst (assignRankRole env member guildId rk) = Inr False"
    by (cases "assignRankRole_try env member guildId rk") (simp add: assignRankRole_def)
qed

theorem assignVerificationRoles_never_throws_witness:
  "fst (assignVerifiedRole_try store_down_env pupil_member ''guild-1'') = Inl (Error ''connection refused'') \<and>
   fst (assignVerifiedRole store_down_env pupil_member ''guild-1'') = Inr False \<and>
   fst (assignRankRole_try store_down_env pupil_member ''guild-1'' ''expert'') = Inl (Error ''connection refused'') \<and>
   fst (assignRankRole store_down_env pupil_member ''guild-1'' ''expert'') = Inr False \<and>
   fst (assignVerificationRoles store_down_env pupil_member ''guild-1'' (Some ''expert'')) =
     Inr \<lparr> verifiedRole = False, rankRole = False, errors = [] \<rparr>"
proof -
  have h1: "fst (assignVerifiedRole_try store_down_env pupil_member ''guild-1'') = Inl (Error ''connection refused'')"
    by (simp add: assignVerifiedRole_try_def getGuildConfig_def store_down_env_def quiet_env_def Error_def)
  have h2: "fst (assignRankRole_try store_down_env pupil_member ''guild-1'' ''expert'') = Inl (Error ''connection refused'')"
    by (simp add: assignRankRole_try_def getGuildConfig_def store_down_env_def quiet_env_def Error_def)
  have r: "fst (assignVerificationRoles store_down_env pupil_member ''guild-1'' (Some ''expert'')) =
     Inr \<lparr> verifiedRole = False, rankRole = False, errors = [] \<rparr>"
    by (simp add: role_eval)
  from assignVerificationRoles_never_throws
         [where env = store_down_env and member = pupil_member and guildId = "''guild-1''"
            and rk = "''expert''" and e = "Error ''connection refused''"
            and e' = "Error ''connection refused''"]
       h1 h2 r
  show ?thesis by simp
qed

section \<open>Verification sessions\<close>

lemma createPendingVerification_fst:
  "fst (createPendingVerification env verification w) = issued env verification"
  by (simp add: createPendingVerification_def issued_def Let_def split: option.splits)

lemma filter_other_key:
  assumes "\<not> same_key u g n verification"
  shows "filter (same_key u g n)
           (filter (\<lambda>row. \<not> same_key (pv_discord_user_id verification) (pv_guild_id verification)
                               (pv_username verification) row) rows) =
         filter (same_key u g n) rows"
proof -
  have "\<And>row. same_key u g n row \<Longrightarrow>
      \<not> same_key (pv_discord_user_id verification) (pv_guild_id verification) (pv_username verification) row"
    using assms by (auto simp: same_key_def)
  then show ?thesis
    by (induction rows) auto
qed

lemma sessions_of_create_same:
  assumes "same_key u g n verification"
    and "store_error env (DeletePendingByKey u g n) = None"
  shows "sessions_of u g n (snd (createPendingVerification env verification w)) =
           (case issued env verification of Inl _ \<Rightarrow> [] | Inr row \<Rightarrow> [row])"
proof -
  from assms(1) have key: "pv_discord_user_id verification = u" "pv_guild_id verification = g"
      "pv_username verification = n"
    by (simp_all add: same_key_def)
  have own: "same_key u g n (verification\<lparr> pv_id := i, pv_started_at := t \<rparr>)" for i t
    using assms(1) by (simp add: same_key_def)
  show ?thesis
    using assms(2) own
    by (simp add: createPendingVerification_def issued_def sessions_of_def Let_def key
        split: option.splits)
qed

lemma sessions_of_create_other:
  assumes "\<not> same_key u g n verification"
  shows "sessions_of u g n (snd (createPendingVerification env verification w)) = sessions_of u g n w"
proof -
  have other: "\<not> same_key u g n (verification\<lparr> pv_id := i, pv_started_at := t \<rparr>)" for i t
    using assms by (simp add: same_key_def)
  show ?thesis
    using other filter_other_key [OF assms]
    by (simp add: createPendingVerification_def sessions_of_def Let_def split: option.splits)
qed

lemma create_calls_snoc:
  "create_calls env (calls @ [verification]) w =
     snd (createPendingVerification env verification (create_calls env calls w))"
  by (induction calls arbitrary: w) simp_all

text \<open>
  Claim C3. When the store carries out the deletes for the key (discord user id, guild id,
  username), then after any sequence of session-creation calls in which at least one is for
  the key, the table holds at most one session of that key: the row the latest call for
  the key was answered with, or none when the store refused that insert.
\<close>

theorem one_session_per_key:
  assumes "\<exists>verification\<in>set calls. same_key u g n verification"
    and "store_error env (DeletePendingByKey u g n) = None"
  shows "length (sessions_of u g n (create_calls env calls w)) \<le> 1 \<and>
         sessions_of u g n (create_calls env calls w) =
           (case fst (createPendingVerification env (last (filter (same_key u g n) calls)) w) of
              Inl _ \<Rightarrow> []
            | Inr row \<Rightarrow> [row])"
proof -
  have "sessions_of u g n (create_calls env calls w) =
          (case issued env (last (filter (same_key u g n) calls)) of Inl _ \<Rightarrow> [] | Inr row \<Rightarrow> [row])"
    using assms(1)
  proof (induction calls rule: rev_induct)
    case Nil
    then show ?case by simp
  next
    case (snoc verification calls)
    show ?case
    proof (cases "same_key u g n verification")
      case True
      then show ?thesis
        by (simp add: create_calls_snoc sessions_of_create_same [OF True assms(2)])
    next
      case False
      with snoc.prems have "\<exists>v\<in>set calls. same_key u g n v" by auto
      with snoc.IH False show ?thesis
        by (simp add: create_calls_snoc sessions_of_create_other)
    qed
  qed
  then show ?thesis
    by (simp add: createPendingVerification_fst split: sum.splits)
qed

theorem one_session_per_key_witness:
  "(\<exists>verification\<in>set [link_first, link_second]. same_key ''user-1'' ''guild-1'' ''alice'' verification) \<and>
   store_error quiet_env (DeletePendingByKey ''user-1'' ''guild-1'' ''alice'') = None \<and>
   sessions_of ''user-1'' ''guild-1'' ''alice'' (create_calls quiet_env [link_first, link_second] empty_world) =
     [session_second]"
proof -
  have h: "\<exists>verification\<in>set [link_first, link_second]. same_key ''user-1'' ''guild-1'' ''alice'' verification"
    by (simp add: same_key_def link_first_def)
  have d: "store_error quiet_env (DeletePendingByKey ''user-1'' ''guild-1'' ''alice'') = None"
    by (simp add: quiet_env_def)
  have l: "last (filter (same_key ''user-1'' ''guild-1'' ''alice'') [link_first, link_second]) = link_second"
    by (simp add: same_key_def link_first_def link_second_def)
  have i: "fst (createPendingVerification quiet_env link_second empty_world) = Inr session_second"
    by (simp add: createPendingVerification_def quiet_env_def link_second_def session_second_def Let_def)
  from one_session_per_key [OF h d, of empty_world] h d l i show ?thesis
    by simp
qed

lemma isExpired_iff: "isExpired now expiresAt = (now > expiresAt)"
  by (simp add: isExpired_def)

lemma deletePendingVerification_accepted:
  assumes "store_error env (DeletePendingById verificationId) = None"
  shows "deletePendingVerification env verificationId w =
           (Inr (), w\<lparr> pending_verifications :=
                         filter (\<lambda>row. pv_id row \<noteq> verificationId) (pending_verifications w) \<rparr>)"
  using assms by (simp add: deletePendingVerification_def)


text \<open>When the store refuses the deletion, the thrown value leaves the iteration and nothing is changed.\<close>

lemma expired_session_store_refuses:
  assumes "pv_expires_at pending < t_isExpired clock"
    and "store_error env (DeletePendingById (pv_id pending)) = Some refused"
  shows "verifyPending env clock userId guildId pending st = (Inl refused, st)"
  using assms by (simp add: verifyPending_def deletePendingVerification_def isExpired_def)

text \<open>
  The query of the command fetches live sessions only: a user whose sessions have all
  expired before the query is told that there is nothing pending, and the table is left as
  it is.
\<close>

lemma execute_expired_before_query:
  assumes "store_error env (SelectPending userId guildId) = None"
    and "\<forall>row\<in>set (pending_verifications w).
           pv_discord_user_id row = userId \<and> pv_guild_id row = guildId \<longrightarrow> pv_expires_at row \<le> now"
  shows "execute env now clocks userId (Some guildId) (w, member) = (ReplyNoPending, (w, member))"
proof -
  have "filter (\<lambda>row. pv_discord_user_id row = userId \<and> pv_guild_id row = guildId \<and>
                       pv_expires_at row > now) (pending_verifications w) = []"
    using assms(2) by (auto simp: filter_empty_conv)
  with assms(1) show ?thesis
    by (simp add: execute_def getPendingVerifications_def)
qed


lemma getPendingVerifications_live:
  assumes "getPendingVerifications env now discordUserId guildId w = Inr sessions"
  shows "\<forall>pending\<in>set sessions. \<not> isExpired now (pv_expires_at pending)"
  using assms by (auto simp: getPendingVerifications_def isExpired_def split: option.splits)

lemma deletePendingVerification_subset:
  "set (pending_verifications (snd (deletePendingVerification env verificationId w))) \<subseteq>
     set (pending_verifications w)"
  by (auto simp: deletePendingVerification_def split: option.splits)

lemma createLinkedAccount_pending:
  "pending_verifications (snd (createLinkedAccount env now u g n rank w)) = pending_verifications w"
  by (simp add: createLinkedAccount_def split: option.splits)

lemma saveVerified_try_subset:
  "set (pending_verifications (fst (snd (saveVerified_try env clock u g pending rank (w, member))))) \<subseteq>
     set (pending_verifications w)"
proof -
  obtain r1 w1 where c: "createLinkedAccount env (t_verifiedAt clock) u g (pv_username pending) rank w = (r1, w1)"
    by (cases "createLinkedAccount env (t_verifiedAt clock) u g (pv_username pending) rank w")
  then have p1: "pending_verifications w1 = pending_verifications w"
    using createLinkedAccount_pending [of env "t_verifiedAt clock" u g "pv_username pending" rank w] by simp
  obtain r2 w2 where d: "deletePendingVerification env (pv_id pending) w1 = (r2, w2)"
    by (cases "deletePendingVerification env (pv_id pending) w1")
  then have p2: "set (pending_verifications w2) \<subseteq> set (pending_verifications w1)"
    using deletePendingVerification_subset [of env "pv_id pending" w1] by simp
  obtain r3 m3 where a: "assignVerificationRoles env member g rank = (r3, m3)"
    by (cases "assignVerificationRoles env member g rank")
  from c d a p1 p2 show ?thesis
    by (auto simp: saveVerified_try_def split: sum.splits)
qed

lemma verifyPending_subset:
  "set (pending_verifications (fst (snd (verifyPending env clock u g pending st)))) \<subseteq>
     set (pending_verifications (fst st))"
proof (cases st)
  case (Pair w member)
  show ?thesis
  proof (cases "isExpired (t_isExpired clock) (pv_expires_at pending)")
    case True
    with Pair deletePendingVerification_subset [of env "pv_id pending" w] show ?thesis
      by (auto simp: verifyPending_def split: prod.splits sum.splits)
  next
    case False
    show ?thesis
    proof (cases "checkPending_try env clock pending")
      case (Inl e)
      with False Pair show ?thesis by (simp add: verifyPending_def)
    next
      case (Inr res)
      obtain verificationResult userRank where res: "res = (verificationResult, userRank)"
        by (cases res)
      show ?thesis
      proof (cases "verified verificationResult")
        case True
        with False Pair Inr res saveVerified_try_subset [of env clock u g pending userRank w member]
        show ?thesis
          by (auto simp: verifyPending_def split: prod.splits sum.splits)
      next
        case nv: False
        with False Pair Inr res show ?thesis by (simp add: verifyPending_def Let_def)
      qed
    qed
  qed
qed

lemma verifyLoop_subset:
  "set (pending_verifications (fst (snd (verifyLoop env clocks u g pendings results st)))) \<subseteq>
     set (pending_verifications (fst st))"
proof (induction pendings arbitrary: results st)
  case Nil
  then show ?case by simp
next
  case (Cons pending rest)
  obtain r st' where step: "verifyPending env (clocks pending) u g pending st = (r, st')"
    by (cases "verifyPending env (clocks pending) u g pending st")
  with verifyPending_subset [of env "clocks pending" u g pending st]
  have sub: "set (pending_verifications (fst st')) \<subseteq> set (pending_verifications (fst st))"
    by simp
  show ?case
  proof (cases r)
    case (Inl e)
    with step sub show ?thesis by simp
  next
    case (Inr result)
    with step sub Cons.IH [of "results @ [result]" st'] show ?thesis by auto
  qed
qed

text \<open>
  Claim C2. When the clock read by \<^verbatim>\<open>isExpired\<close> is strictly after the session's
  \<^verbatim>\<open>expires_at\<close> and the store carries out the deletion, the evaluation of the session
  deletes it and reports the expiry, whatever the upstream API would answer about the
  user's submissions and rank; the session is in the table no more when the loop of
  \<^verbatim>\<open>/verify\<close> ends; and \<^verbatim>\<open>isExpired\<close> holds exactly when the clock is strictly after
  \<^verbatim>\<open>expires_at\<close>.
\<close>

theorem expired_session_is_deleted:
  assumes "pv_expires_at pending < t_isExpired (clocks pending)"
    and "store_error env (DeletePendingById (pv_id pending)) = None"
  shows "verifyPending env (clocks pending) userId guildId pending (w, member) =
           (Inr (VerificationResultFailure (pv_username pending)
                   ''Verification expired. Please start a new verification with `/link`.''
                   None None None),
            (w\<lparr> pending_verifications :=
                   filter (\<lambda>row. pv_id row \<noteq> pv_id pending) (pending_verifications w) \<rparr>, member)) \<and>
         verifyPending (env\<lparr> user_status := api, user_info := info \<rparr>) (clocks pending) userId guildId
             pending (w, member) =
           verifyPending env (clocks pending) userId guildId pending (w, member) \<and>
         pending \<notin> set (pending_verifications
                           (fst (snd (verifyLoop env clocks userId guildId (pending # rest) results (w, member))))) \<and>
         (isExpired now expiresAt \<longleftrightarrow> now > expiresAt)"
proof -
  let ?expired = "VerificationResultFailure (pv_username pending)
                   ''Verification expired. Please start a new verification with `/link`.''
                   None None None"
  let ?w' = "w\<lparr> pending_verifications :=
                   filter (\<lambda>row. pv_id row \<noteq> pv_id pending) (pending_verifications w) \<rparr>"
  have expired: "isExpired (t_isExpired (clocks pending)) (pv_expires_at pending)"
    using assms(1) by (simp add: isExpired_iff)
  have run: "\<And>env'. store_error env' = store_error env \<Longrightarrow>
      verifyPending env' (clocks pending) userId guildId pending (w, member) = (Inr ?expired, (?w', member))"
    using expired assms(2) by (simp add: verifyPending_def deletePendingVerification_accepted)
  have here: "verifyPending env (clocks pending) userId guildId pending (w, member) =
                (Inr ?expired, (?w', member))"
    by (rule run) simp
  have there: "verifyPending (env\<lparr> user_status := api, user_info := info \<rparr>) (clocks pending) userId guildId
                 pending (w, member) =
               verifyPending env (clocks pending) userId guildId pending (w, member)"
    by (simp add: run)
  have "set (pending_verifications
               (fst (snd (verifyLoop env clocks userId guildId rest (results @ [?expired]) (?w', member)))))
          \<subseteq> set (pending_verifications ?w')"
    using verifyLoop_subset [of env clocks userId guildId rest "results @ [?expired]" "(?w', member)"]
    by simp
  then have gone: "pending \<notin> set (pending_verifications
               (fst (snd (verifyLoop env clocks userId guildId (pending # rest) results (w, member)))))"
    using here by auto
  from here there gone show ?thesis
    by (simp add: isExpired_iff)
qed

theorem expired_session_is_deleted_witness:
  "pv_expires_at session_second < t_isExpired ((\<lambda>pending. late_clock) session_second) \<and>
   store_error quiet_env (DeletePendingById (pv_id session_second)) = None \<and>
   verifyPending quiet_env late_clock ''user-1'' ''guild-1'' session_second (world_second, pupil_member) =
     (Inr (VerificationResultFailure ''alice''
             ''Verification expired. Please start a new verification with `/link`.'' None None None),
      (empty_world, pupil_member))"
proof -
  have h1: "pv_expires_at session_second < t_isExpired ((\<lambda>pending. late_clock) session_second)"
    by (simp add: session_second_def link_second_def late_clock_def)
  have h2: "store_error quiet_env (DeletePendingById (pv_id session_second)) = None"
    by (simp add: quiet_env_def)
  have w: "world_second\<lparr> pending_verifications :=
              filter (\<lambda>row. pv_id row \<noteq> pv_id session_second) (pending_verifications world_second) \<rparr>
           = empty_world"
    by (simp add: world_second_def empty_world_def)
  have n: "pv_username session_second = ''alice''"
    by (simp add: session_second_def link_second_def)
  from expired_session_is_deleted
         [where clocks = "\<lambda>pending. late_clock" and pending = session_second and env = quiet_env
            and w = world_second and member = pupil_member and userId = "''user-1''"
            and guildId = "''guild-1''", OF h1 h2]
       h1 h2 w n
  show ?thesis by simp
qed

section \<open>Role reconciliation\<close>

lemma updateLinkedAccountRank_failure:
  "failure_of (fst (updateLinkedAccountRank env accountId newRank w)) =
     store_error env (UpdateLinkedRank accountId newRank)"
  by (simp add: updateLinkedAccountRank_def failure_of_def split: option.splits)

lemma syncMember_try_failure:
  "failure_of (fst (syncMember_try env guildId account currentRank w)) =
     members_fetch_error env guildId (la_discord_user_id account)"
proof (cases "members_fetch_error env guildId (la_discord_user_id account)")
  case (Some e)
  then show ?thesis
    by (simp add: syncMember_try_def members_fetch_def failure_of_def)
next
  case None
  show ?thesis
  proof (cases "members w (guildId, la_discord_user_id account)")
    case absent: None
    with None show ?thesis
      by (simp add: syncMember_try_def members_fetch_def failure_of_def)
  next
    case (Some member)
    obtain b m where "assignRankRole env member guildId currentRank = (Inr b, m)"
      using assignRankRole_Inr by blast
    with None Some show ?thesis
      by (simp add: syncMember_try_def members_fetch_def failure_of_def)
  qed
qed

lemma syncMember_failure:
  "failure_of (fst (syncMember env guildId account currentRank w)) =
     (case members_fetch_error env guildId (la_discord_user_id account) of
        None \<Rightarrow> None
      | Some memberError \<Rightarrow>
          if instanceofError memberError \<and> err_code memberError = NumCode 10007 then None
          else Some memberError)"
proof (cases "syncMember_try env guildId account currentRank w")
  case (Pair outcome w')
  with syncMember_try_failure [of env guildId account currentRank w]
  show ?thesis
    by (cases outcome) (auto simp: syncMember_def failure_of_def split: option.splits)
qed

lemma sync_failure_eq:
  "sync_failure env guildId account w =
     (case getUserInfo (user_info env) (la_username account) of
        Inl error \<Rightarrow> Some error
      | Inr cfUserInfo \<Rightarrow>
          if toLowerCase (ui_rank cfUserInfo) \<noteq> [] \<and>
             Some (toLowerCase (ui_rank cfUserInfo)) \<noteq> map_option toLowerCase (la_rank account)
          then (case store_error env (UpdateLinkedRank (la_id account) (toLowerCase (ui_rank cfUserInfo))) of
                  Some error \<Rightarrow> Some error
                | None \<Rightarrow>
                    (case members_fetch_error env guildId (la_discord_user_id account) of
                       None \<Rightarrow> None
                     | Some memberError \<Rightarrow>
                         if instanceofError memberError \<and> err_code memberError = NumCode 10007 then None
                         else Some memberError))
          else None)"
proof (cases "getUserInfo (user_info env) (la_username account)")
  case (Inl e)
  then show ?thesis
    by (simp add: sync_failure_def syncAccount_try_def failure_of_def)
next
  case (Inr cfUserInfo)
  let ?rank = "toLowerCase (ui_rank cfUserInfo)"
  show ?thesis
  proof (cases "?rank \<noteq> [] \<and> Some ?rank \<noteq> map_option toLowerCase (la_rank account)")
    case False
    with Inr show ?thesis
      by (auto simp: sync_failure_def syncAccount_try_def failure_of_def Let_def)
  next
    case True
    obtain o1 w1 where u: "updateLinkedAccountRank env (la_id account) ?rank w = (o1, w1)"
      by (cases "updateLinkedAccountRank env (la_id account) ?rank w")
    with updateLinkedAccountRank_failure [of env "la_id account" ?rank w]
    have f1: "failure_of o1 = store_error env (UpdateLinkedRank (la_id account) ?rank)"
      by simp
    show ?thesis
    proof (cases o1)
      case (Inl e)
      with f1 have "store_error env (UpdateLinkedRank (la_id account) ?rank) = Some e"
        by (simp add: failure_of_def)
      with Inl Inr True u show ?thesis
        by (auto simp: sync_failure_def syncAccount_try_def failure_of_def Let_def)
    next
      case ok: (Inr x)
      with f1 have "store_error env (UpdateLinkedRank (la_id account) ?rank) = None"
        by (simp add: failure_of_def)
      with ok Inr True u syncMember_failure [of env guildId account ?rank w1] show ?thesis
        by (auto simp: sync_failure_def syncAccount_try_def Let_def)
    qed
  qed
qed

lemma sync_failure_world: "sync_failure env guildId account w = sync_failure env guildId account w'"
  by (simp add: sync_failure_eq)

lemma account_errors_world: "account_errors env w guildId accounts = account_errors env w' guildId accounts"
  using sync_failure_world [of env guildId _ w w'] by (simp add: account_errors_def)

lemma account_errors_Cons:
  "account_errors env w guildId (account # accounts) =
     (case sync_failure env guildId account w of
        None \<Rightarrow> []
      | Some error \<Rightarrow> [sync_error_text guildId account error]) @
     account_errors env w guildId accounts"
  by (simp add: account_errors_def List.map_filter_simps split: option.splits)

lemma syncAccount_effect:
  "\<exists>r' w'. syncAccount env guildId account (r, w) = (None, (r', w')) \<and>
           totalProcessed r' = totalProcessed r + 1 \<and> skipped r' = skipped r \<and>
           sync_errors r' = sync_errors r @
             (case sync_failure env guildId account w of
                None \<Rightarrow> []
              | Some error \<Rightarrow> [sync_error_text guildId account error])"
proof (cases "syncAccount_try env guildId account w")
  case (Pair outcome w')
  then show ?thesis
    by (cases outcome) (simp_all add: syncAccount_def sync_failure_def failure_of_def Let_def)
qed

lemma syncAccounts_effect:
  "\<exists>r' w'. syncAccounts env guildId accounts (r, w) = (None, (r', w')) \<and>
           totalProcessed r' = totalProcessed r + length accounts \<and> skipped r' = skipped r \<and>
           sync_errors r' = sync_errors r @ account_errors env w guildId accounts"
proof (induction accounts arbitrary: r w)
  case Nil
  then show ?case by (simp add: account_errors_def List.map_filter_simps)
next
  case (Cons account accounts)
  from syncAccount_effect [of env guildId account r w]
  obtain r1 w1 where
    step: "syncAccount env guildId account (r, w) = (None, (r1, w1))" and
    t1: "totalProcessed r1 = totalProcessed r + 1" and s1: "skipped r1 = skipped r" and
    e1: "sync_errors r1 = sync_errors r @
             (case sync_failure env guildId account w of
                None \<Rightarrow> []
              | Some error \<Rightarrow> [sync_error_text guildId account error])"
    by blast
  from Cons.IH [of r1 w1]
  obtain r' w' where
    rest: "syncAccounts env guildId accounts (r1, w1) = (None, (r', w'))" and
    t2: "totalProcessed r' = totalProcessed r1 + length accounts" and s2: "skipped r' = skipped r1" and
    e2: "sync_errors r' = sync_errors r1 @ account_errors env w1 guildId accounts"
    by blast
  have "account_errors env w1 guildId accounts = account_errors env w guildId accounts"
    by (rule account_errors_world)
  with step rest t1 t2 s1 s2 e1 e2 show ?case
    by (simp add: account_errors_Cons)
qed

lemma syncGuild_effect:
  assumes "\<forall>e. getGuildConfig env guildId \<noteq> Inl e"
  shows "\<exists>r' w'. syncGuild env (guildId, accounts) (r, w) = (None, (r', w')) \<and>
           totalProcessed r' = totalProcessed r + (if guild_synced env guildId then length accounts else 0) \<and>
           skipped r' = skipped r + (if guild_synced env guildId then 0 else length accounts) \<and>
           sync_errors r' = sync_errors r @
             (if guild_synced env guildId then account_errors env w guildId accounts else [])"
proof (cases "getGuildConfig env guildId")
  case (Inl e)
  with assms show ?thesis by simp
next
  case (Inr config)
  show ?thesis
  proof (cases "guild_synced env guildId")
    case True
    with Inr have "\<not> no_rank_roles config" "guilds_cache env guildId"
      by (simp_all add: guild_synced_def)
    with Inr True syncAccounts_effect [of env guildId accounts r w] show ?thesis
      by (simp add: syncGuild_def)
  next
    case False
    with Inr have "no_rank_roles config \<or> \<not> guilds_cache env guildId"
      by (simp add: guild_synced_def)
    with Inr False show ?thesis
      by (auto simp: syncGuild_def)
  qed
qed

lemma syncGuilds_effect:
  assumes "\<forall>entry\<in>set entries. \<forall>e. getGuildConfig env (fst entry) \<noteq> Inl e"
  shows "\<exists>r' w'. syncGuilds env entries (r, w) = (None, (r', w')) \<and>
           totalProcessed r' = totalProcessed r + sum_list (map (group_processed env) entries) \<and>
           skipped r' = skipped r + sum_list (map (group_skipped env) entries) \<and>
           sync_errors r' = sync_errors r @ concat (map (group_errors env w0) entries)"
  using assms
proof (induction entries arbitrary: r w)
  case Nil
  then show ?case by simp
next
  case (Cons entry entries)
  obtain guildId accounts where entry: "entry = (guildId, accounts)"
    by (cases entry)
  from Cons.prems entry have ok: "\<forall>e. getGuildConfig env guildId \<noteq> Inl e"
    by simp
  from syncGuild_effect [OF ok, of accounts r w]
  obtain r1 w1 where
    step: "syncGuild env (guildId, accounts) (r, w) = (None, (r1, w1))" and
    t1: "totalProcessed r1 = totalProcessed r + (if guild_synced env guildId then length accounts else 0)" and
    s1: "skipped r1 = skipped r + (if guild_synced env guildId then 0 else length accounts)" and
    e1: "sync_errors r1 = sync_errors r @
             (if guild_synced env guildId then account_errors env w guildId accounts else [])"
    by blast
  from Cons.prems have "\<forall>entry\<in>set entries. \<forall>e. getGuildConfig env (fst entry) \<noteq> Inl e"
    by simp
  from Cons.IH [OF this, of r1 w1]
  obtain r' w' where
    rest: "syncGuilds env entries (r1, w1) = (None, (r', w'))" and
    t2: "totalProcessed r' = totalProcessed r1 + sum_list (map (group_processed env) entries)" and
    s2: "skipped r' = skipped r1 + sum_list (map (group_skipped env) entries)" and
    e2: "sync_errors r' = sync_errors r1 @ concat (map (group_errors env w0) entries)"
    by blast
  have aw: "account_errors env w guildId accounts = account_errors env w0 guildId accounts"
    by (rule account_errors_world)
  have g: "group_processed env (guildId, accounts) = (if guild_synced env guildId then length accounts else 0)"
    "group_skipped env (guildId, accounts) = (if guild_synced env guildId then 0 else length accounts)"
    "group_errors env w0 (guildId, accounts) =
       (if guild_synced env guildId then account_errors env w0 guildId accounts else [])"
    by (simp_all add: group_processed_def group_skipped_def group_errors_def)
  from entry step rest t1 t2 s1 s2 e1 e2 aw show ?case
    by (simp add: g)
qed

text \<open>The grouping keeps every account, under the id of its guild.\<close>

lemma group_sum_map_push:
  "group_sum h (map_push k account entries) = group_sum h entries + h k account"
  by (induction k account entries rule: map_push.induct) (simp_all add: group_sum_def)

lemma group_sum_foldl:
  "group_sum h (foldl (\<lambda>m account. map_push (la_guild_id account) account m) entries accounts) =
     group_sum h entries + sum_list (map (\<lambda>account. h (la_guild_id account) account) accounts)"
  by (induction accounts arbitrary: entries) (simp_all add: group_sum_map_push)

lemma group_sum_accountsByGuild:
  "group_sum h (accountsByGuild accounts) =
     sum_list (map (\<lambda>account. h (la_guild_id account) account) accounts)"
  by (simp add: accountsByGuild_def group_sum_foldl) (simp add: group_sum_def)

lemma keys_map_push: "fst ` set (map_push k account entries) = insert k (fst ` set entries)"
  by (induction k account entries rule: map_push.induct) (simp_all add: insert_commute)

lemma keys_foldl:
  "fst ` set (foldl (\<lambda>m account. map_push (la_guild_id account) account m) entries accounts) =
     fst ` set entries \<union> la_guild_id ` set accounts"
proof (induction accounts arbitrary: entries)
  case Nil
  then show ?case by simp
next
  case (Cons account accounts)
  show ?case
    unfolding foldl_Cons Cons.IH keys_map_push by auto
qed

lemma keys_accountsByGuild: "fst ` set (accountsByGuild accounts) = la_guild_id ` set accounts"
  by (simp add: accountsByGuild_def keys_foldl)

lemma grouped_Nil: "grouped [] = {}"
  by (simp add: grouped_def)

lemma grouped_Cons: "grouped ((k, existing) # entries) = Pair k ` set existing \<union> grouped entries"
  by (simp add: grouped_def)

lemma grouped_map_push: "grouped (map_push k account entries) = insert (k, account) (grouped entries)"
  by (induction k account entries rule: map_push.induct) (simp_all add: grouped_Nil grouped_Cons)

lemma grouped_foldl:
  "grouped (foldl (\<lambda>m account. map_push (la_guild_id account) account m) entries accounts) =
     grouped entries \<union> (\<lambda>account. (la_guild_id account, account)) ` set accounts"
proof (induction accounts arbitrary: entries)
  case Nil
  then show ?case by simp
next
  case (Cons account accounts)
  show ?case
    unfolding foldl_Cons Cons.IH grouped_map_push by auto
qed

lemma grouped_accountsByGuild:
  "grouped (accountsByGuild accounts) = (\<lambda>account. (la_guild_id account, account)) ` set accounts"
  by (simp add: accountsByGuild_def grouped_foldl grouped_Nil)

lemma length_filter_sum:
  "length (filter P xs) = sum_list (map (\<lambda>x. if P x then 1 else 0) xs)"
  by (induction xs) simp_all

lemma length_account_errors:
  "length (account_errors env w guildId accounts) =
     sum_list (map (\<lambda>account. if sync_failure env guildId account w \<noteq> None then 1 else 0) accounts)"
  by (induction accounts) (auto simp: account_errors_Cons, simp add: account_errors_def List.map_filter_simps)

lemma account_errors_member:
  assumes "account \<in> set accounts" "sync_failure env guildId account w = Some error"
  shows "sync_error_text guildId account error \<in> set (account_errors env w guildId accounts)"
  using assms by (induction accounts) (auto simp: account_errors_Cons)

lemma group_processed_sum:
  "group_processed env =
     (\<lambda>entry. sum_list (map (\<lambda>account. if guild_synced env (fst entry) then 1 else 0) (snd entry)))"
  by (rule ext) (simp add: group_processed_def sum_list_triv)

lemma group_skipped_sum:
  "group_skipped env =
     (\<lambda>entry. sum_list (map (\<lambda>account. if guild_synced env (fst entry) then 0 else 1) (snd entry)))"
  by (rule ext) (simp add: group_skipped_def sum_list_triv)

lemma group_errors_length:
  "(\<lambda>entry. length (group_errors env w entry)) =
     (\<lambda>entry. sum_list (map (\<lambda>account.
                       if guild_synced env (fst entry) \<and> sync_failure env (fst entry) account w \<noteq> None
                       then 1 else 0) (snd entry)))"
  by (rule ext) (simp add: group_errors_def length_account_errors)

lemma sum_processed:
  "sum_list (map (group_processed env) (accountsByGuild accounts)) =
     length (filter (\<lambda>account. guild_synced env (la_guild_id account)) accounts)"
proof -
  have "sum_list (map (group_processed env) (accountsByGuild accounts)) =
          group_sum (\<lambda>guildId account. if guild_synced env guildId then 1 else 0) (accountsByGuild accounts)"
    by (simp only: group_sum_def group_processed_sum)
  then show ?thesis
    by (simp add: group_sum_accountsByGuild length_filter_sum)
qed

lemma sum_skipped:
  "sum_list (map (group_skipped env) (accountsByGuild accounts)) =
     length (filter (\<lambda>account. \<not> guild_synced env (la_guild_id account)) accounts)"
proof -
  have "sum_list (map (group_skipped env) (accountsByGuild accounts)) =
          group_sum (\<lambda>guildId account. if guild_synced env guildId then 0 else 1) (accountsByGuild accounts)"
    by (simp only: group_sum_def group_skipped_sum)
  also have "\<dots> = sum_list (map (\<lambda>account. if \<not> guild_synced env (la_guild_id account) then 1 else 0) accounts)"
    unfolding group_sum_accountsByGuild
    by (rule arg_cong [where f = sum_list], rule map_cong) simp_all
  finally show ?thesis
    by (simp add: length_filter_sum)
qed

lemma length_errors:
  "length (concat (map (group_errors env w) (accountsByGuild accounts))) =
     length (filter (\<lambda>account. guild_synced env (la_guild_id account) \<and>
                               sync_failure env (la_guild_id account) account w \<noteq> None) accounts)"
proof -
  have "length (concat (map (group_errors env w) (accountsByGuild accounts))) =
          sum_list (map (\<lambda>entry. length (group_errors env w entry)) (accountsByGuild accounts))"
    by (simp add: length_concat comp_def)
  also have "\<dots> = group_sum (\<lambda>guildId account.
                       if guild_synced env guildId \<and> sync_failure env guildId account w \<noteq> None then 1 else 0)
            (accountsByGuild accounts)"
    by (simp only: group_sum_def group_errors_length)
  finally show ?thesis
    by (simp add: group_sum_accountsByGuild length_filter_sum)
qed

lemma error_recorded:
  assumes "account \<in> set accounts" "guild_synced env (la_guild_id account)"
    "sync_failure env (la_guild_id account) account w = Some error"
  shows "sync_error_text (la_guild_id account) account error \<in>
           set (concat (map (group_errors env w) (accountsByGuild accounts)))"
proof -
  from assms(1) have "(la_guild_id account, account) \<in> grouped (accountsByGuild accounts)"
    by (simp add: grouped_accountsByGuild)
  then obtain entry where entry: "entry \<in> set (accountsByGuild accounts)"
      "fst entry = la_guild_id account" "account \<in> set (snd entry)"
    by (auto simp: grouped_def)
  from entry(2,3) assms(2,3)
  have "sync_error_text (la_guild_id account) account error \<in> set (group_errors env w entry)"
    by (simp add: group_errors_def account_errors_member)
  with entry(1) show ?thesis by auto
qed

lemma syncAllRoles_effect:
  assumes "getAllLinkedAccounts env w = Inr accounts"
    and "\<forall>account\<in>set accounts. \<forall>e. getGuildConfig env (la_guild_id account) \<noteq> Inl e"
  shows "totalProcessed (fst (syncAllRoles env w)) = sum_list (map (group_processed env) (accountsByGuild accounts)) \<and>
         skipped (fst (syncAllRoles env w)) = sum_list (map (group_skipped env) (accountsByGuild accounts)) \<and>
         sync_errors (fst (syncAllRoles env w)) = concat (map (group_errors env w) (accountsByGuild accounts))"
proof (cases "accounts = []")
  case True
  with assms(1) show ?thesis
    by (simp add: syncAllRoles_def syncAllRoles_try_def accountsByGuild_def)
next
  case False
  let ?zero = "\<lparr> totalProcessed = 0, rolesUpdated = 0, sync_errors = [], skipped = 0 \<rparr>"
  have "\<forall>entry\<in>set (accountsByGuild accounts). \<forall>e. getGuildConfig env (fst entry) \<noteq> Inl e"
  proof
    fix entry assume "entry \<in> set (accountsByGuild accounts)"
    then have "fst entry \<in> la_guild_id ` set accounts"
      using keys_accountsByGuild [of accounts] by auto
    with assms(2) show "\<forall>e. getGuildConfig env (fst entry) \<noteq> Inl e" by auto
  qed
  from syncGuilds_effect [OF this, of ?zero w w]
  obtain r' w' where
    "syncGuilds env (accountsByGuild accounts) (?zero, w) = (None, (r', w'))"
    "totalProcessed r' = sum_list (map (group_processed env) (accountsByGuild accounts))"
    "skipped r' = sum_list (map (group_skipped env) (accountsByGuild accounts))"
    "sync_errors r' = concat (map (group_errors env w) (accountsByGuild accounts))"
    by auto
  with False assms(1) show ?thesis
    by (simp add: syncAllRoles_def syncAllRoles_try_def)
qed

lemma toLowerCase_pupil: "toLowerCase ''pupil'' = ''pupil''"
  by code_simp

lemma timed_out_not_found: "str_includes ''Codeforces API request timed out'' ''not found'' = False"
  by code_simp

lemmas sync_eval =
  sync_env_def quiet_env_def account_alice_def account_bob_def account_carol_def sync_world_def
  empty_world_def getAllLinkedAccounts_def getGuildConfig_def guild_synced_def no_rank_roles_def
  sync_failure_eq getUserInfo_def getUserInfo_try_def Error_def errorMessage_def
  toLowerCase_expert toLowerCase_pupil toLowerCase_Expert timed_out_not_found

text \<open>
  Claim C9. When the linked accounts are read and no guild's configuration lookup fails,
  a run of \<^verbatim>\<open>syncAllRoles\<close> counts in \<^verbatim>\<open>totalProcessed\<close> every account of every guild that
  has rank roles configured and is in the cache, whether its processing failed or not, and
  in \<^verbatim>\<open>skipped\<close> every other account; the failure of an account is in \<^verbatim>\<open>errors\<close> with its
  username and guild id; and \<^verbatim>\<open>errors\<close> holds one entry for each failed account, nothing
  else.
\<close>

theorem sync_batch_resilience:
  assumes "getAllLinkedAccounts env w = Inr accounts"
    and "\<forall>account\<in>set accounts. \<forall>e. getGuildConfig env (la_guild_id account) \<noteq> Inl e"
  shows "totalProcessed (fst (syncAllRoles env w)) =
           length (filter (\<lambda>account. guild_synced env (la_guild_id account)) accounts) \<and>
         skipped (fst (syncAllRoles env w)) =
           length (filter (\<lambda>account. \<not> guild_synced env (la_guild_id account)) accounts) \<and>
         (\<forall>account\<in>set accounts. guild_synced env (la_guild_id account) \<longrightarrow>
            (\<forall>w0 error. sync_failure env (la_guild_id account) account w0 = Some error \<longrightarrow>
               ''Failed to sync '' @ la_username account @ '' in guild '' @ la_guild_id account @ '': '' @
                 errorMessage error \<in> set (sync_errors (fst (syncAllRoles env w))))) \<and>
         length (sync_errors (fst (syncAllRoles env w))) =
           length (filter (\<lambda>account. guild_synced env (la_guild_id account) \<and>
                                     sync_failure env (la_guild_id account) account w \<noteq> None) accounts)"
proof -
  note run = syncAllRoles_effect [OF assms]
  have recorded: "\<forall>account\<in>set accounts. guild_synced env (la_guild_id account) \<longrightarrow>
            (\<forall>w0 error. sync_failure env (la_guild_id account) account w0 = Some error \<longrightarrow>
               ''Failed to sync '' @ la_username account @ '' in guild '' @ la_guild_id account @ '': '' @
                 errorMessage error \<in> set (sync_errors (fst (syncAllRoles env w))))"
  proof (intro ballI impI allI)
    fix account w0 error
    assume a: "account \<in> set accounts" "guild_synced env (la_guild_id account)"
      "sync_failure env (la_guild_id account) account w0 = Some error"
    from a(3) have "sync_failure env (la_guild_id account) account w = Some error"
      using sync_failure_world [of env "la_guild_id account" account w w0] by simp
    from error_recorded [OF a(1,2) this] run
    show "''Failed to sync '' @ la_username account @ '' in guild '' @ la_guild_id account @ '': '' @
                 errorMessage error \<in> set (sync_errors (fst (syncAllRoles env w)))"
      by (simp add: sync_error_text_def)
  qed
  from run recorded show ?thesis
    by (simp add: sum_processed sum_skipped length_errors)
qed

theorem sync_batch_resilience_witness:
  "getAllLinkedAccounts sync_env sync_world = Inr [account_alice, account_bob, account_carol] \<and>
   guild_synced sync_env ''guild-1'' \<and> guild_synced sync_env ''guild-2'' \<and>
   sync_failure sync_env ''guild-1'' account_alice sync_world =
     Some (Error ''Codeforces API request timed out'') \<and>
   totalProcessed (fst (syncAllRoles sync_env sync_world)) = 3 \<and>
   ''Failed to sync alice in guild guild-1: Codeforces API request timed out''
     \<in> set (sync_errors (fst (syncAllRoles sync_env sync_world))) \<and>
   length (sync_errors (fst (syncAllRoles sync_env sync_world))) = 1"
proof -
  have h1: "getAllLinkedAccounts sync_env sync_world = Inr [account_alice, account_bob, account_carol]"
    by (simp add: sync_eval)
  have h2: "\<forall>account\<in>set [account_alice, account_bob, account_carol].
              \<forall>e. getGuildConfig sync_env (la_guild_id account) \<noteq> Inl e"
    by (simp add: sync_eval)
  have g: "guild_synced sync_env ''guild-1''" "guild_synced sync_env ''guild-2''"
    by (simp_all add: sync_eval)
  have f: "sync_failure sync_env ''guild-1'' account_alice sync_world =
             Some (Error ''Codeforces API request timed out'')"
       "sync_failure sync_env ''guild-1'' account_bob sync_world = None"
       "sync_failure sync_env ''guild-2'' account_carol sync_world = None"
    by (simp_all add: sync_eval)
  have ids: "la_guild_id account_alice = ''guild-1''" "la_guild_id account_bob = ''guild-1''"
       "la_guild_id account_carol = ''guild-2''" "la_username account_alice = ''alice''"
    by (simp_all add: account_alice_def account_bob_def account_carol_def)
  note run = sync_batch_resilience [OF h1 h2]
  from run have "\<forall>w0 error. sync_failure sync_env (la_guild_id account_alice) account_alice w0 = Some error \<longrightarrow>
      ''Failed to sync '' @ la_username account_alice @ '' in guild '' @ la_guild_id account_alice @ '': '' @
        errorMessage error \<in> set (sync_errors (fst (syncAllRoles sync_env sync_world)))"
    using g(1) ids(1) by simp
  then have "sync_failure sync_env (la_guild_id account_alice) account_alice sync_world =
        Some (Error ''Codeforces API request timed out'') \<longrightarrow>
      ''Failed to sync '' @ la_username account_alice @ '' in guild '' @ la_guild_id account_alice @ '': '' @
        errorMessage (Error ''Codeforces API request timed out'')
        \<in> set (sync_errors (fst (syncAllRoles sync_env sync_world)))"
    by blast
  with f(1) ids have recorded:
    "''Failed to sync alice in guild guild-1: Codeforces API request timed out''
       \<in> set (sync_errors (fst (syncAllRoles sync_env sync_world)))"
    by (auto simp: errorMessage_def Error_def)
  from run g f ids h1 recorded
  show ?thesis
    by simp
qed

end
